theory Spec2Isabelle
  imports Main
begin

section \<open>Go values used by the service\<close>

text \<open>
  \<^verbatim>\<open>int64\<close> (and \<^verbatim>\<open>int\<close> on the 64-bit targets the service is built for) is
  modelled as \<^typ>\<open>int\<close> with the two's complement wrap-around written out:
  \<open>wrap64\<close> is applied wherever the source adds, subtracts, negates or multiplies
  such values.
\<close>

definition wrap64 :: "int \<Rightarrow> int" where
  "wrap64 x = (x + 2 ^ 63) mod 2 ^ 64 - 2 ^ 63"

definition max_int64 :: int where
  "max_int64 = 2 ^ 63 - 1"

definition min_int64 :: int where
  "min_int64 = - (2 ^ 63)"

text \<open>
  \<^verbatim>\<open>float64(x)\<close> of an \<^verbatim>\<open>int64\<close> is the double nearest to \<open>x\<close>, a tie going
  to the even mantissa. A double of magnitude \<open>2 ^ 53\<close> or more is a whole number, so
  the doubles met here (scores, and the bounds of a score range, which the server reads
  from their decimal digits) are given by their integer values. \<open>float_exponent a\<close>
  is the number of low bits of \<open>a\<close> that a mantissa of 53 bits cannot hold, for
  \<open>a\<close> up to \<open>2 ^ 63\<close>, and \<open>round_even\<close> rounds them away.

  \<^verbatim>\<open>int64(f)\<close> of a whole double is \<open>f\<close> when it fits. The one double beyond
  \<^verbatim>\<open>int64\<close> that \<open>float64\<close> yields is \<open>2 ^ 63\<close>; Go leaves that conversion
  to the platform, and amd64 returns the least \<^verbatim>\<open>int64\<close>.
\<close>

definition float_exponent :: "int \<Rightarrow> nat" where
  "float_exponent a =
     (if a < 2 ^ 53 then 0 else if a < 2 ^ 54 then 1 else if a < 2 ^ 55 then 2
      else if a < 2 ^ 56 then 3 else if a < 2 ^ 57 then 4 else if a < 2 ^ 58 then 5
      else if a < 2 ^ 59 then 6 else if a < 2 ^ 60 then 7 else if a < 2 ^ 61 then 8
      else if a < 2 ^ 62 then 9 else if a < 2 ^ 63 then 10 else 11)"

definition round_even :: "nat \<Rightarrow> int \<Rightarrow> int" where
  "round_even k a =
     (let q = a div 2 ^ k; rest = a mod 2 ^ k
      in (if 2 ^ k < 2 * rest \<or> (2 * rest = 2 ^ k \<and> odd q) then q + 1 else q) * 2 ^ k)"

definition float64 :: "int \<Rightarrow> int" where
  "float64 x = sgn x * round_even (float_exponent \<bar>x\<bar>) \<bar>x\<bar>"

definition int64 :: "int \<Rightarrow> int" where
  "int64 f = (if min_int64 \<le> f \<and> f \<le> max_int64 then f else min_int64)"

text \<open>
  \<^verbatim>\<open>time.Time\<close> is an instant counted in nanoseconds since the Unix epoch and
  \<^verbatim>\<open>time.Duration\<close> a number of nanoseconds. \<^verbatim>\<open>t.UnixMilli()\<close> rounds towards
  minus infinity, \<^verbatim>\<open>time.UnixMilli(ms)\<close> is exact.
\<close>

type_synonym Time = int
type_synonym Duration = int

definition UnixMilli :: "Time \<Rightarrow> int" where
  "UnixMilli t = t div 1000000"

definition time_UnixMilli :: "int \<Rightarrow> Time" where
  "time_UnixMilli ms = ms * 1000000"

definition time_Add :: "Time \<Rightarrow> Duration \<Rightarrow> Time" where
  "time_Add t d = t + d"

text \<open>
  An \<^verbatim>\<open>error\<close> result: \<^verbatim>\<open>nil\<close>, the sentinel \<^verbatim>\<open>redis.Nil\<close> (key or field
  absent), or any other error (transport failure, cancelled context, parse error).
\<close>

datatype go_error = NoError | RedisNil | OtherError

subsection \<open>strconv\<close>

text \<open>
  \<^verbatim>\<open>strconv.Atoi\<close> and \<^verbatim>\<open>strconv.ParseInt(s, 10, 64)\<close> accept an optional sign
  followed by one or more decimal digits and fail when the value does not fit 64 bits.
  \<^verbatim>\<open>strconv.Itoa\<close> prints the decimal digits, with a leading minus sign for a
  negative number.
\<close>

definition is_digit :: "char \<Rightarrow> bool" where
  "is_digit c = (48 \<le> (of_char c :: nat) \<and> (of_char c :: nat) \<le> 57)"

definition digit_value :: "char \<Rightarrow> int" where
  "digit_value c = of_char c - 48"

definition parse_digits :: "string \<Rightarrow> int option" where
  "parse_digits s =
     (if s \<noteq> [] \<and> list_all is_digit s
      then Some (foldl (\<lambda>a c. 10 * a + digit_value c) 0 s)
      else None)"

definition Atoi :: "string \<Rightarrow> int option" where
  "Atoi s =
     (case s of
        [] \<Rightarrow> None
      | c # rest \<Rightarrow>
          if c = CHR ''-'' then
            (case parse_digits rest of
               None \<Rightarrow> None
             | Some n \<Rightarrow> if n \<le> 2 ^ 63 then Some (- n) else None)
          else
            (case parse_digits (if c = CHR ''+'' then rest else s) of
               None \<Rightarrow> None
             | Some n \<Rightarrow> if n < 2 ^ 63 then Some n else None))"

definition ParseInt64 :: "string \<Rightarrow> int option" where
  "ParseInt64 s = Atoi s"

definition digit_char :: "nat \<Rightarrow> char" where
  "digit_char d = ''0123456789'' ! d"

function nat_digits :: "nat \<Rightarrow> string" where
  "nat_digits n =
     (if n < 10 then [digit_char n] else nat_digits (n div 10) @ [digit_char (n mod 10)])"
  by pat_completeness auto
termination
  by (relation "measure (\<lambda>n. n)") auto

declare nat_digits.simps [simp del]

definition Itoa :: "int \<Rightarrow> string" where
  "Itoa i = (if i < 0 then CHR ''-'' # nat_digits (nat (- i)) else nat_digits (nat i))"

section \<open>Models and configuration\<close>

record AgentMessage =
  ConversationID :: string
  AgentID :: string
  MessageID :: string
  Timestamp :: Time

record CustomerResponse =
  ConversationID :: string
  CustomerID :: string
  MessageID :: string
  Timestamp :: Time

record TimeoutEvent =
  ConversationID :: string
  Level :: int
  AgentMessageTime :: Time
  DetectedAt :: Time
  Attempt :: int

record Config =
  TimeoutIntervalMS :: int
  LeaderElectionTTL :: int
  PodID :: string

definition LeaderElectionTTLDuration :: "Config \<Rightarrow> Duration" where
  "LeaderElectionTTLDuration c = wrap64 (LeaderElectionTTL c * 1000000000)"

text \<open>
  The counters and the gauge of \<^verbatim>\<open>pkg/metrics\<close>; a counter vector is a function
  from the label to the count, and the gauge holds a double. The duration histograms
  are left out.
\<close>

record Metrics =
  WaitingConversationsCount :: int
  TimeoutNotificationsSent :: "string \<Rightarrow> nat"
  TimeoutLeaderChanges :: nat
  StreamMessagesProcessed :: "string \<Rightarrow> nat"

definition Inc :: "(string \<Rightarrow> nat) \<Rightarrow> string \<Rightarrow> string \<Rightarrow> nat" where
  "Inc counter label = counter(label := counter label + 1)"

section \<open>The shared store\<close>

text \<open>
  The values of one entry of the stream \<^verbatim>\<open>timeout_events\<close>, as
  \<^verbatim>\<open>publishTimeoutEvent\<close> hands them to \<^verbatim>\<open>XADD\<close>. The field
  \<^verbatim>\<open>event_data\<close>, a JSON rendering of the same event, is left out.
\<close>

record stream_values =
  conversation_id :: string
  level :: int
  agent_message_time :: int
  detected_at :: int
  attempt :: int

text \<open>
  The commands a replica sends. Each command works on one fixed key
  (\<^verbatim>\<open>waiting_conversations\<close>, \<^verbatim>\<open>notification_states\<close>, \<^verbatim>\<open>timeout:leader\<close>,
  \<^verbatim>\<open>timeout_events\<close>), so the key is not an argument.
  The arguments are those the client is called with: \<open>ZADD\<close> the member and the
  score, the range commands the two bounds that are printed in decimal, \<open>SET_NX\<close>
  the value and the time to live as a duration, and \<open>EVAL_RENEW\<close> (the script of
  \<^verbatim>\<open>renewLeadership\<close>) the value and the seconds.
\<close>

datatype cmd =
    ZADD string int
  | ZREM string
  | ZRANGEBYSCORE int int
  | ZREMRANGEBYSCORE int int
  | HGET string
  | HSET string string
  | HDEL string
  | XADD stream_values
  | XACK string
  | SET_NX string int
  | GET
  | EVAL_RENEW string int

record lease =
  holder :: string
  ttl :: "int option"

text \<open>
  The store: the sorted set as a list of (member, score) pairs with one pair for each
  member, the hash as a map from field to value, the lease key with the time to live in
  milliseconds it was last given (\<open>None\<close> when it does not expire), the stream, and
  the identifiers of the entries that were delivered to the consumer group and not yet
  acknowledged. \<open>calls\<close> lists the commands received, oldest first. A score is a
  double; the service writes whole ones (\<open>float64\<close> of a millisecond timestamp), and
  a score is given by its integer value. The order in which a range query lists its
  members is not modelled.
\<close>

record redis =
  waiting_conversations :: "(string \<times> int) list"
  notification_states :: "string \<rightharpoonup> string"
  timeout_leader :: "lease option"
  timeout_events :: "stream_values list"
  pending :: "string list"
  calls :: "cmd list"

text \<open>
  What the replica cannot control: which commands fail in transport (a failed command
  is not applied), what \<^verbatim>\<open>time.Now()\<close> returns while the event of a given
  conversation is built, the offset in seconds east of UTC that the zone
  \<^verbatim>\<open>time.Local\<close> has at an instant, and the clock of the server in milliseconds
  since the epoch.
\<close>

record env =
  fails :: "cmd \<Rightarrow> bool"
  time_Now :: "string \<Rightarrow> Time"
  zone_offset :: "Time \<Rightarrow> int"
  server_time :: nat

definition issue :: "cmd \<Rightarrow> redis \<Rightarrow> redis" where
  "issue c r = r\<lparr>calls := calls r @ [c]\<rparr>"

definition ZAdd :: "env \<Rightarrow> string \<Rightarrow> int \<Rightarrow> redis \<Rightarrow> go_error \<times> redis" where
  "ZAdd e member score r =
     (if fails e (ZADD member score) then (OtherError, issue (ZADD member score) r)
      else (NoError, issue (ZADD member score)
              (r\<lparr>waiting_conversations :=
                    filter (\<lambda>p. fst p \<noteq> member) (waiting_conversations r) @ [(member, score)]\<rparr>)))"

definition ZRem :: "env \<Rightarrow> string \<Rightarrow> redis \<Rightarrow> go_error \<times> redis" where
  "ZRem e member r =
     (if fails e (ZREM member) then (OtherError, issue (ZREM member) r)
      else (NoError, issue (ZREM member)
              (r\<lparr>waiting_conversations :=
                    filter (\<lambda>p. fst p \<noteq> member) (waiting_conversations r)\<rparr>)))"

text \<open>
  A score range is closed at both ends. The callers print the bounds as decimal integers
  \<open>lo\<close> and \<open>hi\<close>, and the server compares the scores with the doubles it reads
  from them.
\<close>

definition in_range :: "int \<Rightarrow> int \<Rightarrow> string \<times> int \<Rightarrow> bool" where
  "in_range lo hi p = (lo \<le> snd p \<and> snd p \<le> hi)"

definition ZRangeByScoreWithScores ::
  "env \<Rightarrow> int \<Rightarrow> int \<Rightarrow> redis \<Rightarrow> ((string \<times> int) list \<times> go_error) \<times> redis" where
  "ZRangeByScoreWithScores e lo hi r =
     (if fails e (ZRANGEBYSCORE lo hi) then (([], OtherError), issue (ZRANGEBYSCORE lo hi) r)
      else ((filter (in_range (float64 lo) (float64 hi)) (waiting_conversations r), NoError),
            issue (ZRANGEBYSCORE lo hi) r))"

definition ZRemRangeByScore ::
  "env \<Rightarrow> int \<Rightarrow> int \<Rightarrow> redis \<Rightarrow> (int \<times> go_error) \<times> redis" where
  "ZRemRangeByScore e lo hi r =
     (if fails e (ZREMRANGEBYSCORE lo hi) then ((0, OtherError), issue (ZREMRANGEBYSCORE lo hi) r)
      else ((int (length (filter (in_range (float64 lo) (float64 hi)) (waiting_conversations r))),
             NoError),
            issue (ZREMRANGEBYSCORE lo hi)
              (r\<lparr>waiting_conversations :=
                    filter (\<lambda>p. \<not> in_range (float64 lo) (float64 hi) p)
                      (waiting_conversations r)\<rparr>)))"

definition HGet :: "env \<Rightarrow> string \<Rightarrow> redis \<Rightarrow> (string \<times> go_error) \<times> redis" where
  "HGet e field r =
     (if fails e (HGET field) then (([], OtherError), issue (HGET field) r)
      else (case notification_states r field of
              None \<Rightarrow> (([], RedisNil), issue (HGET field) r)
            | Some v \<Rightarrow> ((v, NoError), issue (HGET field) r)))"

definition HSet :: "env \<Rightarrow> string \<Rightarrow> string \<Rightarrow> redis \<Rightarrow> go_error \<times> redis" where
  "HSet e field v r =
     (if fails e (HSET field v) then (OtherError, issue (HSET field v) r)
      else (NoError, issue (HSET field v)
              (r\<lparr>notification_states := (notification_states r)(field \<mapsto> v)\<rparr>)))"

definition HDel :: "env \<Rightarrow> string \<Rightarrow> redis \<Rightarrow> go_error \<times> redis" where
  "HDel e field r =
     (if fails e (HDEL field) then (OtherError, issue (HDEL field) r)
      else (NoError, issue (HDEL field)
              (r\<lparr>notification_states := (notification_states r)(field := None)\<rparr>)))"

definition XAdd :: "env \<Rightarrow> stream_values \<Rightarrow> redis \<Rightarrow> go_error \<times> redis" where
  "XAdd e v r =
     (if fails e (XADD v) then (OtherError, issue (XADD v) r)
      else (NoError, issue (XADD v) (r\<lparr>timeout_events := timeout_events r @ [v]\<rparr>)))"

definition XAck :: "env \<Rightarrow> string \<Rightarrow> redis \<Rightarrow> go_error \<times> redis" where
  "XAck e ident r =
     (if fails e (XACK ident) then (OtherError, issue (XACK ident) r)
      else (NoError, issue (XACK ident)
              (r\<lparr>pending := filter (\<lambda>i. i \<noteq> ident) (pending r)\<rparr>)))"

text \<open>
  A pipeline sends its commands together; \<^verbatim>\<open>Exec\<close> returns the first error of any
  of them.
\<close>

definition first_error :: "go_error \<Rightarrow> go_error \<Rightarrow> go_error" where
  "first_error a b = (if a \<noteq> NoError then a else b)"

section \<open>Timeout manager (package phase1)\<close>

definition TrackAgentMessage :: "env \<Rightarrow> AgentMessage \<Rightarrow> redis \<Rightarrow> go_error \<times> redis" where
  "TrackAgentMessage e agentMsg r =
     (let timestamp = UnixMilli (AgentMessage.Timestamp agentMsg);
          (e1, r1) = ZAdd e (AgentMessage.ConversationID agentMsg) (float64 timestamp) r;
          (e2, r2) = HDel e (AgentMessage.ConversationID agentMsg) r1;
          err = first_error e1 e2
      in if err \<noteq> NoError then (OtherError, r2) else (NoError, r2))"

definition ClearTimeout :: "env \<Rightarrow> CustomerResponse \<Rightarrow> redis \<Rightarrow> go_error \<times> redis" where
  "ClearTimeout e customerResp r =
     (let (e1, r1) = ZRem e (CustomerResponse.ConversationID customerResp) r;
          (e2, r2) = HDel e (CustomerResponse.ConversationID customerResp) r1;
          err = first_error e1 e2
      in if err \<noteq> NoError then (OtherError, r2) else (NoError, r2))"

text \<open>
  \<^verbatim>\<open>CleanupExpiredConversations\<close> takes the reading of \<^verbatim>\<open>time.Now()\<close> as the
  argument \<open>now\<close>. \<^verbatim>\<open>-maxAge\<close> is computed in \<^verbatim>\<open>int64\<close>. Its only result is
  the error; the number of members removed is logged when positive and then dropped.
\<close>

definition CleanupExpiredConversations :: "env \<Rightarrow> Time \<Rightarrow> Duration \<Rightarrow> redis \<Rightarrow> go_error \<times> redis" where
  "CleanupExpiredConversations e now maxAge r =
     (let cutoff = UnixMilli (time_Add now (wrap64 (- maxAge)));
          ((removed, err), r1) = ZRemRangeByScore e 0 cutoff r
      in if err \<noteq> NoError then (OtherError, r1) else (NoError, r1))"

section \<open>Leader election and the phase 1 detector (package phase1)\<close>

text \<open>
  The fields of \<^verbatim>\<open>LeaderElection\<close> that change: the flag \<^verbatim>\<open>isLeader\<close>, the
  metrics, and the notifications that \<^verbatim>\<open>sendNotification\<close> wrote to the log, oldest
  first (in phase 1 the log line is all a notification consists of).
\<close>

record LeaderElection =
  isLeader :: bool
  metrics :: Metrics
  notifications :: "TimeoutEvent list"

text \<open>
  \<^verbatim>\<open>SetArgs\<close> of go-redis v8 with mode \<^verbatim>\<open>NX\<close>. The client sends the time to
  live only when it is positive: in milliseconds (\<^verbatim>\<open>PX\<close>) when it is below a
  second or not a whole number of seconds, else in seconds (\<^verbatim>\<open>EX\<close>);
  \<open>set_ttl_ms\<close> is what the key then gets, in milliseconds. The server rejects an
  expiry that overflows when added to its clock, and checks that before it looks at the
  key. When the key is present nothing is set and the client returns the error
  \<^verbatim>\<open>redis.Nil\<close>. No time passes within one election tick.
\<close>

definition set_ttl_ms :: "Duration \<Rightarrow> int" where
  "set_ttl_ms d =
     (if d < 1000000000 \<or> d mod 1000000000 \<noteq> 0
      then (if d < 1000000 then 1 else d div 1000000)
      else d div 1000000000 * 1000)"

definition expire_overflows :: "env \<Rightarrow> int \<Rightarrow> bool" where
  "expire_overflows e ms = (max_int64 - int (server_time e) < ms)"

definition SetArgs :: "env \<Rightarrow> string \<Rightarrow> Duration \<Rightarrow> redis \<Rightarrow> (string \<times> go_error) \<times> redis" where
  "SetArgs e v d r =
     (if fails e (SET_NX v d) then (([], OtherError), issue (SET_NX v d) r)
      else if 0 < d \<and> expire_overflows e (set_ttl_ms d)
      then (([], OtherError), issue (SET_NX v d) r)
      else (case timeout_leader r of
              None \<Rightarrow>
                ((''OK'', NoError),
                 issue (SET_NX v d)
                   (r\<lparr>timeout_leader :=
                         Some \<lparr>holder = v, ttl = (if 0 < d then Some (set_ttl_ms d) else None)\<rparr>\<rparr>))
            | Some l \<Rightarrow> (([], RedisNil), issue (SET_NX v d) r)))"

definition Get :: "env \<Rightarrow> redis \<Rightarrow> (string \<times> go_error) \<times> redis" where
  "Get e r =
     (if fails e GET then (([], OtherError), issue GET r)
      else (case timeout_leader r of
              None \<Rightarrow> (([], RedisNil), issue GET r)
            | Some l \<Rightarrow> ((holder l, NoError), issue GET r)))"

text \<open>
  The renewal script returns 0 unless the key holds the given value; then it calls
  \<^verbatim>\<open>EXPIRE\<close> with the seconds \<open>t\<close>. The server (Redis 7, as the scripts of the
  repository start it) rejects seconds whose milliseconds overflow, alone or added to
  its clock, and the script fails with that error; it deletes the key when \<open>t\<close> is
  not positive; else it sets the time to live. In both cases \<^verbatim>\<open>EXPIRE\<close> returns 1.
\<close>

definition expire_invalid :: "env \<Rightarrow> int \<Rightarrow> bool" where
  "expire_invalid e t =
     (max_int64 div 1000 < t \<or> t < - (max_int64 div 1000) \<or> expire_overflows e (t * 1000))"

definition EvalRenew :: "env \<Rightarrow> string \<Rightarrow> int \<Rightarrow> redis \<Rightarrow> (int \<times> go_error) \<times> redis" where
  "EvalRenew e pod t r =
     (if fails e (EVAL_RENEW pod t) then ((0, OtherError), issue (EVAL_RENEW pod t) r)
      else (case timeout_leader r of
              None \<Rightarrow> ((0, NoError), issue (EVAL_RENEW pod t) r)
            | Some l \<Rightarrow>
                if holder l = pod
                then (if expire_invalid e t then ((0, OtherError), issue (EVAL_RENEW pod t) r)
                      else if t \<le> 0
                      then ((1, NoError), issue (EVAL_RENEW pod t) (r\<lparr>timeout_leader := None\<rparr>))
                      else ((1, NoError),
                            issue (EVAL_RENEW pod t)
                              (r\<lparr>timeout_leader := Some (l\<lparr>ttl := Some (t * 1000)\<rparr>)\<rparr>)))
                else ((0, NoError), issue (EVAL_RENEW pod t) r)))"

definition renewLeadership ::
  "Config \<Rightarrow> env \<Rightarrow> LeaderElection \<Rightarrow> redis \<Rightarrow> LeaderElection \<times> redis" where
  "renewLeadership cfg e le r =
     (let ((val, err), r1) = EvalRenew e (PodID cfg) (LeaderElectionTTL cfg) r
      in if err \<noteq> NoError then (le\<lparr>isLeader := False\<rparr>, r1)
         else if val = 0 then (le\<lparr>isLeader := False\<rparr>, r1)
         else (le, r1))"

definition tryBecomeLeader ::
  "Config \<Rightarrow> env \<Rightarrow> LeaderElection \<Rightarrow> redis \<Rightarrow> LeaderElection \<times> redis" where
  "tryBecomeLeader cfg e le r =
     (let ((val, err), r1) = SetArgs e (PodID cfg) (LeaderElectionTTLDuration cfg) r
      in if err \<noteq> NoError then (le, r1)
         else if val = ''OK'' then
           renewLeadership cfg e
             (if \<not> isLeader le
              then le\<lparr>metrics := (metrics le)\<lparr>TimeoutLeaderChanges :=
                                        TimeoutLeaderChanges (metrics le) + 1\<rparr>,
                      isLeader := True\<rparr>
              else le) r1
         else if isLeader le then
           (let ((currentLeader, err2), r2) = Get e r1
            in if err2 \<noteq> NoError \<or> currentLeader \<noteq> PodID cfg
               then (le\<lparr>isLeader := False\<rparr>, r2)
               else (le, r2))
         else (le, r1))"

text \<open>
  \<^verbatim>\<open>sendNotification\<close> of phase 1 builds the event, logs it and returns
  \<^verbatim>\<open>nil\<close>.
\<close>

definition sendNotification ::
  "env \<Rightarrow> string \<Rightarrow> int \<Rightarrow> int \<Rightarrow> LeaderElection \<Rightarrow> go_error \<times> LeaderElection" where
  "sendNotification e conversationID lvl startTime le =
     (let notification =
            \<lparr>ConversationID = conversationID, Level = lvl,
             AgentMessageTime = time_UnixMilli startTime,
             DetectedAt = time_Now e conversationID, Attempt = 1\<rparr>
      in (NoError, le\<lparr>notifications := notifications le @ [notification]\<rparr>))"

definition processConversationTimeout ::
  "Config \<Rightarrow> env \<Rightarrow> string \<Rightarrow> int \<Rightarrow> int \<Rightarrow> LeaderElection \<times> redis \<Rightarrow> LeaderElection \<times> redis" where
  "processConversationTimeout cfg e conversationID startTime now s =
     (let le = fst s; r = snd s;
          waitTime = wrap64 (now - startTime);
          timeoutInterval = TimeoutIntervalMS cfg;
          ((currentLevelStr, err), r1) = HGet e conversationID r
      in if err \<noteq> NoError \<and> err \<noteq> RedisNil then (le, r1)
         else
           let currentLevel =
                 (if currentLevelStr \<noteq> []
                  then (case Atoi currentLevelStr of Some lvl \<Rightarrow> lvl | None \<Rightarrow> 0)
                  else 0);
               newLevel =
                 (if waitTime > wrap64 (timeoutInterval * 3) \<and> currentLevel < 3 then Some 3
                  else if waitTime > wrap64 (timeoutInterval * 2) \<and> currentLevel < 2 then Some 2
                  else if waitTime > timeoutInterval \<and> currentLevel < 1 then Some 1
                  else None)
           in case newLevel of
                None \<Rightarrow> (le, r1)
              | Some nl \<Rightarrow>
                  let (err1, le1) = sendNotification e conversationID nl startTime le
                  in if err1 \<noteq> NoError then (le1, r1)
                     else
                       let (err2, r2) = HSet e conversationID (Itoa nl) r1
                       in if err2 \<noteq> NoError then (le1, r2)
                          else (le1\<lparr>metrics := (metrics le1)\<lparr>TimeoutNotificationsSent :=
                                      Inc (TimeoutNotificationsSent (metrics le1))
                                        (''level'' @ Itoa nl)\<rparr>\<rparr>, r2))"

fun checkTimeouts_loop ::
  "Config \<Rightarrow> env \<Rightarrow> int \<Rightarrow> (string \<times> int) list \<Rightarrow> LeaderElection \<times> redis \<Rightarrow> LeaderElection \<times> redis" where
  "checkTimeouts_loop cfg e now [] s = s"
| "checkTimeouts_loop cfg e now (conv # conversations) s =
     checkTimeouts_loop cfg e now conversations
       (processConversationTimeout cfg e (fst conv) (int64 (snd conv)) now s)"

text \<open>\<open>t\<close> is the reading of \<^verbatim>\<open>time.Now()\<close> at the start of the pass.\<close>

definition checkTimeouts ::
  "Config \<Rightarrow> env \<Rightarrow> Time \<Rightarrow> LeaderElection \<times> redis \<Rightarrow> LeaderElection \<times> redis" where
  "checkTimeouts cfg e t s =
     (let now = UnixMilli t;
          ((conversations, err), r1) = ZRangeByScoreWithScores e 0 now (snd s)
      in if err \<noteq> NoError then (fst s, r1)
         else checkTimeouts_loop cfg e now conversations
                ((fst s)\<lparr>metrics := (metrics (fst s))\<lparr>WaitingConversationsCount :=
                                   float64 (int (length conversations))\<rparr>\<rparr>, r1))"

section \<open>Stream producer: the phase 2 detector (package phase2)\<close>

text \<open>
  \<^verbatim>\<open>json.Marshal\<close> of the event fails when \<^verbatim>\<open>MarshalJSON\<close> fails on one of its
  two times (the other fields are a string and two integers). \<^verbatim>\<open>Time.MarshalJSON\<close>
  (Go 1.21, the version the Dockerfile builds with) fails unless the year, read in the
  zone of the value, lies in 0..9999 and the zone is less than 24 hours from UTC. Both
  times of an event are in the zone \<^verbatim>\<open>time.Local\<close>. \<open>unix_year_0\<close> and
  \<open>unix_year_10000\<close> are the first seconds of the years 0 and 10000, counted from the
  Unix epoch.
\<close>

definition unix_year_0 :: int where
  "unix_year_0 = - 62167219200"

definition unix_year_10000 :: int where
  "unix_year_10000 = 253402300800"

definition MarshalJSON :: "env \<Rightarrow> Time \<Rightarrow> go_error" where
  "MarshalJSON e t =
     (let offset = zone_offset e t; sec = t div 1000000000 + offset
      in if sec < unix_year_0 \<or> unix_year_10000 \<le> sec then OtherError
         else if 24 \<le> \<bar>offset\<bar> div 60 div 60 then OtherError
         else NoError)"

definition json_Marshal :: "env \<Rightarrow> TimeoutEvent \<Rightarrow> go_error" where
  "json_Marshal e event =
     (if MarshalJSON e (AgentMessageTime event) \<noteq> NoError then OtherError
      else if MarshalJSON e (DetectedAt event) \<noteq> NoError then OtherError
      else NoError)"

text \<open>
  \<^verbatim>\<open>publishTimeoutEvent\<close> builds the event, reading \<^verbatim>\<open>time.Now()\<close> for
  \<^verbatim>\<open>DetectedAt\<close>, renders it as JSON, and appends its fields to the stream. When
  the rendering fails it returns the error and sends nothing.
\<close>

definition publishTimeoutEvent ::
  "env \<Rightarrow> string \<Rightarrow> int \<Rightarrow> int \<Rightarrow> redis \<Rightarrow> go_error \<times> redis" where
  "publishTimeoutEvent e conversationID lvl startTime r =
     (let event =
            \<lparr>ConversationID = conversationID, Level = lvl,
             AgentMessageTime = time_UnixMilli startTime,
             DetectedAt = time_Now e conversationID, Attempt = 1\<rparr>
      in if json_Marshal e event \<noteq> NoError then (OtherError, r)
         else
           let (err, r1) =
                 XAdd e \<lparr>conversation_id = TimeoutEvent.ConversationID event,
                         level = Level event,
                         agent_message_time = UnixMilli (AgentMessageTime event),
                         detected_at = UnixMilli (DetectedAt event),
                         attempt = Attempt event\<rparr> r
           in if err \<noteq> NoError then (OtherError, r1) else (NoError, r1))"

definition processTimeoutDetection ::
  "Config \<Rightarrow> env \<Rightarrow> string \<Rightarrow> int \<Rightarrow> int \<Rightarrow> redis \<Rightarrow> redis" where
  "processTimeoutDetection cfg e conversationID startTime now r =
     (let waitTime = wrap64 (now - startTime);
          timeoutInterval = TimeoutIntervalMS cfg;
          ((currentLevelStr, err), r1) = HGet e conversationID r
      in if err \<noteq> NoError \<and> err \<noteq> RedisNil then r1
         else
           let currentLevel =
                 (if currentLevelStr \<noteq> []
                  then (case Atoi currentLevelStr of Some lvl \<Rightarrow> lvl | None \<Rightarrow> 0)
                  else 0);
               newLevel =
                 (if waitTime > wrap64 (timeoutInterval * 3) \<and> currentLevel < 3 then Some 3
                  else if waitTime > wrap64 (timeoutInterval * 2) \<and> currentLevel < 2 then Some 2
                  else if waitTime > timeoutInterval \<and> currentLevel < 1 then Some 1
                  else None)
           in case newLevel of
                None \<Rightarrow> r1
              | Some nl \<Rightarrow>
                  let (err1, r2) = publishTimeoutEvent e conversationID nl startTime r1
                  in if err1 \<noteq> NoError then r2
                     else snd (HSet e conversationID (Itoa nl) r2))"

fun detect_loop ::
  "Config \<Rightarrow> env \<Rightarrow> int \<Rightarrow> (string \<times> int) list \<Rightarrow> redis \<Rightarrow> redis" where
  "detect_loop cfg e now [] r = r"
| "detect_loop cfg e now (conv # conversations) r =
     detect_loop cfg e now conversations
       (processTimeoutDetection cfg e (fst conv) (int64 (snd conv)) now r)"

definition detectAndPublishTimeouts ::
  "Config \<Rightarrow> env \<Rightarrow> Time \<Rightarrow> Metrics \<times> redis \<Rightarrow> Metrics \<times> redis" where
  "detectAndPublishTimeouts cfg e t s =
     (let now = UnixMilli t;
          ((conversations, err), r1) = ZRangeByScoreWithScores e 0 now (snd s)
      in if err \<noteq> NoError then (fst s, r1)
         else ((fst s)\<lparr>WaitingConversationsCount := float64 (int (length conversations))\<rparr>,
               detect_loop cfg e now conversations r1))"

section \<open>Stream consumer (package phase2)\<close>

text \<open>
  A value of \<^verbatim>\<open>map[string]interface{}\<close> is a string or something else; a key that
  is missing yields the nil interface, which no type assertion accepts.
\<close>

datatype go_value = GoString string | GoOther

record XMessage =
  ID :: string
  Values :: "string \<rightharpoonup> go_value"

definition as_string :: "go_value option \<Rightarrow> string option" where
  "as_string v = (case v of Some (GoString s) \<Rightarrow> Some s | _ \<Rightarrow> None)"

definition parseTimeoutEvent :: "XMessage \<Rightarrow> go_error + TimeoutEvent" where
  "parseTimeoutEvent message =
     (case as_string (Values message ''conversation_id'') of
        None \<Rightarrow> Inl OtherError
      | Some convID \<Rightarrow>
     (case as_string (Values message ''level'') of
        None \<Rightarrow> Inl OtherError
      | Some levelStr \<Rightarrow>
     (case Atoi levelStr of
        None \<Rightarrow> Inl OtherError
      | Some lvl \<Rightarrow>
     (case as_string (Values message ''agent_message_time'') of
        None \<Rightarrow> Inl OtherError
      | Some agentTimeStr \<Rightarrow>
     (case ParseInt64 agentTimeStr of
        None \<Rightarrow> Inl OtherError
      | Some agentTime \<Rightarrow>
     (case as_string (Values message ''detected_at'') of
        None \<Rightarrow> Inl OtherError
      | Some detectedAtStr \<Rightarrow>
     (case ParseInt64 detectedAtStr of
        None \<Rightarrow> Inl OtherError
      | Some detectedAt \<Rightarrow>
     (case as_string (Values message ''attempt'') of
        None \<Rightarrow>
          Inr \<lparr>ConversationID = convID, Level = lvl,
               AgentMessageTime = time_UnixMilli agentTime,
               DetectedAt = time_UnixMilli detectedAt, Attempt = 1\<rparr>
      | Some attemptStr \<Rightarrow>
     (case Atoi attemptStr of
        None \<Rightarrow> Inl OtherError
      | Some att \<Rightarrow>
          Inr \<lparr>ConversationID = convID, Level = lvl,
               AgentMessageTime = time_UnixMilli agentTime,
               DetectedAt = time_UnixMilli detectedAt, Attempt = att\<rparr>)))))))))"

definition acknowledgeMessage :: "env \<Rightarrow> string \<Rightarrow> redis \<Rightarrow> go_error \<times> redis" where
  "acknowledgeMessage e messageID r = XAck e messageID r"

text \<open>
  The consumer's \<^verbatim>\<open>sendNotification\<close> stands in for the call of the notification
  service and returns \<^verbatim>\<open>nil\<close>. \<^verbatim>\<open>processMessage\<close> takes the sink as the
  argument \<open>sink\<close>, so that the service that is to replace the stand-in may fail.
\<close>

definition consumer_sendNotification :: "TimeoutEvent \<Rightarrow> go_error" where
  "consumer_sendNotification event = NoError"

definition processMessage ::
  "env \<Rightarrow> (TimeoutEvent \<Rightarrow> go_error) \<Rightarrow> XMessage \<Rightarrow> Metrics \<times> redis \<Rightarrow> Metrics \<times> redis" where
  "processMessage e sink message s =
     (let m = fst s; r = snd s
      in case parseTimeoutEvent message of
           Inl err \<Rightarrow>
             (m\<lparr>StreamMessagesProcessed := Inc (StreamMessagesProcessed m) ''parse_error''\<rparr>,
              snd (acknowledgeMessage e (ID message) r))
         | Inr event \<Rightarrow>
             if sink event \<noteq> NoError
             then (m\<lparr>StreamMessagesProcessed :=
                        Inc (StreamMessagesProcessed m) ''notification_error''\<rparr>, r)
             else
               let (err, r1) = acknowledgeMessage e (ID message) r
               in if err \<noteq> NoError then (m, r1)
                  else (m\<lparr>StreamMessagesProcessed :=
                             Inc (StreamMessagesProcessed m) ''success'',
                           TimeoutNotificationsSent :=
                             Inc (TimeoutNotificationsSent m) (''level'' @ Itoa (Level event))\<rparr>,
                        r1))"

section \<open>Notions used in the statements\<close>

text \<open>
  The level the detector reads from the hash field (absent, empty and unparsable values
  count as 0), the level it finds due, and the stream entry and the notification it
  builds. Each is the corresponding expression of \<^verbatim>\<open>processTimeoutDetection\<close>,
  \<^verbatim>\<open>processConversationTimeout\<close>, \<^verbatim>\<open>publishTimeoutEvent\<close> and
  \<^verbatim>\<open>sendNotification\<close>; the lemmas \<open>pTD_eq\<close> and \<open>pCT_eq\<close> relate them to
  the functions.
\<close>

definition currentLevel_of :: "string option \<Rightarrow> int" where
  "currentLevel_of v =
     (case v of
        None \<Rightarrow> 0
      | Some s \<Rightarrow> if s \<noteq> [] then (case Atoi s of Some lvl \<Rightarrow> lvl | None \<Rightarrow> 0) else 0)"

definition newLevel_of :: "int \<Rightarrow> int \<Rightarrow> int \<Rightarrow> int option" where
  "newLevel_of timeoutInterval waitTime currentLevel =
     (if waitTime > wrap64 (timeoutInterval * 3) \<and> currentLevel < 3 then Some 3
      else if waitTime > wrap64 (timeoutInterval * 2) \<and> currentLevel < 2 then Some 2
      else if waitTime > timeoutInterval \<and> currentLevel < 1 then Some 1
      else None)"

definition event_values :: "env \<Rightarrow> string \<Rightarrow> int \<Rightarrow> int \<Rightarrow> stream_values" where
  "event_values e c lvl startTime =
     \<lparr>conversation_id = c, level = lvl, agent_message_time = startTime,
      detected_at = UnixMilli (time_Now e c), attempt = 1\<rparr>"

definition notification_of :: "env \<Rightarrow> string \<Rightarrow> int \<Rightarrow> int \<Rightarrow> TimeoutEvent" where
  "notification_of e c lvl startTime =
     \<lparr>ConversationID = c, Level = lvl, AgentMessageTime = time_UnixMilli startTime,
      DetectedAt = time_Now e c, Attempt = 1\<rparr>"

text \<open>
  What one conversation contributes to the stream (phase 2) and to the notification log
  (phase 1), given the value stored for it in the hash; the pair is the conversation and
  the start time the detector is called with. \<open>starts\<close> turns the scanned pairs of
  member and score into these.
\<close>

definition starts :: "(string \<times> int) list \<Rightarrow> (string \<times> int) list" where
  "starts conversations = map (\<lambda>conv. (fst conv, int64 (snd conv))) conversations"


definition published :: "Config \<Rightarrow> env \<Rightarrow> int \<Rightarrow> string option \<Rightarrow> string \<times> int \<Rightarrow> stream_values list" where
  "published cfg e now stored conv =
     (if fails e (HGET (fst conv)) then []
      else (case newLevel_of (TimeoutIntervalMS cfg) (wrap64 (now - snd conv)) (currentLevel_of stored) of
              None \<Rightarrow> []
            | Some nl \<Rightarrow>
                if json_Marshal e (notification_of e (fst conv) nl (snd conv)) \<noteq> NoError then []
                else if fails e (XADD (event_values e (fst conv) nl (snd conv))) then []
                else [event_values e (fst conv) nl (snd conv)]))"

definition notified :: "Config \<Rightarrow> env \<Rightarrow> int \<Rightarrow> string option \<Rightarrow> string \<times> int \<Rightarrow> TimeoutEvent list" where
  "notified cfg e now stored conv =
     (if fails e (HGET (fst conv)) then []
      else (case newLevel_of (TimeoutIntervalMS cfg) (wrap64 (now - snd conv)) (currentLevel_of stored) of
              None \<Rightarrow> []
            | Some nl \<Rightarrow> [notification_of e (fst conv) nl (snd conv)]))"

text \<open>The entries a run added to the stream, and the notifications it added to the log.\<close>

definition appended :: "redis \<Rightarrow> redis \<Rightarrow> stream_values list" where
  "appended r r' = drop (length (timeout_events r)) (timeout_events r')"

definition notified_since :: "LeaderElection \<Rightarrow> LeaderElection \<Rightarrow> TimeoutEvent list" where
  "notified_since le le' = drop (length (notifications le)) (notifications le')"

text \<open>
  A message that \<^verbatim>\<open>parseTimeoutEvent\<close> accepts: the four required fields are
  strings, the three numeric ones are decimal integers, and \<^verbatim>\<open>attempt\<close>, when it
  is a string, is a decimal integer. \<open>ack_due\<close> says that parsing fails or the sink
  succeeds on the parsed event.
\<close>

definition numeric_field :: "(string \<Rightarrow> int option) \<Rightarrow> go_value option \<Rightarrow> bool" where
  "numeric_field parse v = (case as_string v of None \<Rightarrow> False | Some s \<Rightarrow> parse s \<noteq> None)"

definition well_formed :: "XMessage \<Rightarrow> bool" where
  "well_formed message =
     (as_string (Values message ''conversation_id'') \<noteq> None
      \<and> numeric_field Atoi (Values message ''level'')
      \<and> numeric_field ParseInt64 (Values message ''agent_message_time'')
      \<and> numeric_field ParseInt64 (Values message ''detected_at'')
      \<and> (case as_string (Values message ''attempt'') of None \<Rightarrow> True | Some s \<Rightarrow> Atoi s \<noteq> None))"

definition ack_due :: "(TimeoutEvent \<Rightarrow> go_error) \<Rightarrow> XMessage \<Rightarrow> bool" where
  "ack_due sink message =
     (case parseTimeoutEvent message of Inl err \<Rightarrow> True | Inr event \<Rightarrow> sink event = NoError)"

subsection \<open>Concrete stores, messages and configurations\<close>

definition env_ok :: env where
  "env_ok = \<lparr>fails = (\<lambda>c. False), time_Now = (\<lambda>c. 5001000000),
             zone_offset = (\<lambda>t. 0), server_time = 5000\<rparr>"

definition env_xadd_down :: env where
  "env_xadd_down =
     \<lparr>fails = (\<lambda>k. case k of XADD v \<Rightarrow> conversation_id v = ''conv_a'' | _ \<Rightarrow> False),
      time_Now = (\<lambda>c. 5001000000), zone_offset = (\<lambda>t. 0), server_time = 5000\<rparr>"

definition env_down :: env where
  "env_down = \<lparr>fails = (\<lambda>k. True), time_Now = (\<lambda>c. 5001000000),
               zone_offset = (\<lambda>t. 0), server_time = 5000\<rparr>"

definition cfg_1s :: Config where
  "cfg_1s = \<lparr>TimeoutIntervalMS = 1000, LeaderElectionTTL = 10, PodID = ''pod-a''\<rparr>"

definition metrics_zero :: Metrics where
  "metrics_zero =
     \<lparr>WaitingConversationsCount = 0, TimeoutNotificationsSent = (\<lambda>l. 0),
      TimeoutLeaderChanges = 0, StreamMessagesProcessed = (\<lambda>l. 0)\<rparr>"

definition le_leader :: LeaderElection where
  "le_leader = \<lparr>isLeader = True, metrics = metrics_zero, notifications = []\<rparr>"

definition le_follower :: LeaderElection where
  "le_follower = \<lparr>isLeader = False, metrics = metrics_zero, notifications = []\<rparr>"

definition agent_msg :: AgentMessage where
  "agent_msg = \<lparr>AgentMessage.ConversationID = ''conv_123'', AgentID = ''agent_456'',
                AgentMessage.MessageID = ''msg_789'', AgentMessage.Timestamp = 7000000\<rparr>"

definition customer_resp :: CustomerResponse where
  "customer_resp = \<lparr>CustomerResponse.ConversationID = ''conv_123'', CustomerID = ''customer_123'',
                    CustomerResponse.MessageID = ''msg_999'', CustomerResponse.Timestamp = 9000000\<rparr>"

definition store_tracked :: redis where
  "store_tracked =
     \<lparr>waiting_conversations = [(''conv_123'', 5)],
      notification_states = [''conv_123'' \<mapsto> ''2''],
      timeout_leader = None, timeout_events = [], pending = [], calls = []\<rparr>"

definition store_idle :: redis where
  "store_idle =
     \<lparr>waiting_conversations = [(''conv_9'', 40)],
      notification_states = Map.empty,
      timeout_leader = None, timeout_events = [], pending = [], calls = []\<rparr>"

definition store_aged :: redis where
  "store_aged =
     \<lparr>waiting_conversations = [(''before_epoch'', - 5), (''at_cutoff'', 1000), (''fresh'', 1500)],
      notification_states = [''at_cutoff'' \<mapsto> ''3''],
      timeout_leader = None, timeout_events = [], pending = [], calls = []\<rparr>"

definition store_pass :: redis where
  "store_pass =
     \<lparr>waiting_conversations = [(''conv_a'', 1999), (''conv_b'', 3999), (''conv_c'', 2500)],
      notification_states = [''conv_c'' \<mapsto> ''2''],
      timeout_leader = None, timeout_events = [], pending = [], calls = []\<rparr>"

definition store_garbled :: redis where
  "store_garbled =
     \<lparr>waiting_conversations = [(''conv_a'', 3999)],
      notification_states = [''conv_a'' \<mapsto> ''two''],
      timeout_leader = None, timeout_events = [], pending = [], calls = []\<rparr>"

definition store_leased :: redis where
  "store_leased =
     \<lparr>waiting_conversations = [], notification_states = Map.empty,
      timeout_leader = Some \<lparr>holder = ''pod-a'', ttl = Some 3000\<rparr>,
      timeout_events = [], pending = [], calls = []\<rparr>"

definition store_leased_elsewhere :: redis where
  "store_leased_elsewhere =
     \<lparr>waiting_conversations = [], notification_states = Map.empty,
      timeout_leader = Some \<lparr>holder = ''pod-b'', ttl = Some 9000\<rparr>,
      timeout_events = [], pending = [], calls = []\<rparr>"

definition store_empty :: redis where
  "store_empty =
     \<lparr>waiting_conversations = [], notification_states = Map.empty,
      timeout_leader = None, timeout_events = [], pending = [], calls = []\<rparr>"

definition store_delivered :: redis where
  "store_delivered =
     \<lparr>waiting_conversations = [], notification_states = Map.empty,
      timeout_leader = None, timeout_events = [], pending = [''1-0'', ''2-0''], calls = []\<rparr>"

definition msg_good :: XMessage where
  "msg_good =
     \<lparr>ID = ''1-0'',
      Values = [''conversation_id'' \<mapsto> GoString ''test_conv_123'', ''level'' \<mapsto> GoString ''2'',
                ''agent_message_time'' \<mapsto> GoString ''1000'', ''detected_at'' \<mapsto> GoString ''3001'',
                ''attempt'' \<mapsto> GoString ''1'']\<rparr>"

definition msg_poison :: XMessage where
  "msg_poison =
     \<lparr>ID = ''2-0'',
      Values = [''level'' \<mapsto> GoString ''2'',
                ''agent_message_time'' \<mapsto> GoString ''1000'', ''detected_at'' \<mapsto> GoString ''3001'']\<rparr>"

definition sink_down :: "TimeoutEvent \<Rightarrow> go_error" where
  "sink_down event = OtherError"

section \<open>Basic facts\<close>

lemma wrap64_id: "min_int64 \<le> x \<Longrightarrow> x \<le> max_int64 \<Longrightarrow> wrap64 x = x"
  by (simp add: wrap64_def min_int64_def max_int64_def)

lemma wrap64_ge:
  assumes that: "x \<le> max_int64"
  shows "x \<le> wrap64 x"
proof (cases "min_int64 \<le> x")
  case True
  then show ?thesis using that by (simp add: wrap64_id)
next
  case False
  have "(0::int) \<le> (x + 2 ^ 63) mod 2 ^ 64" by simp
  then have "min_int64 \<le> wrap64 x" by (simp add: wrap64_def min_int64_def)
  with False show ?thesis by simp
qed

lemma zdiv_lt: "0 < c \<Longrightarrow> a < b * c \<Longrightarrow> (a::int) div c < b"
proof -
  assume c: "0 < c" and ab: "a < b * c"
  have "a div c * c + a mod c = a" by simp
  moreover have "0 \<le> a mod c" using c by simp
  ultimately have "a div c * c \<le> a" by linarith
  with ab have "a div c * c < b * c" by linarith
  with c show ?thesis by (simp add: mult_less_cancel_right)
qed

lemma round_even_lower: "0 \<le> a \<Longrightarrow> (a div 2 ^ k) * 2 ^ k \<le> round_even k a"
  by (simp add: round_even_def Let_def)

lemma round_even_upper: "0 \<le> a \<Longrightarrow> round_even k a \<le> (a div 2 ^ k + 1) * 2 ^ k"
  by (simp add: round_even_def Let_def)

lemma round_even_0: "round_even 0 a = a"
  by (simp add: round_even_def)

lemma round_even_exact: "a mod 2 ^ k = 0 \<Longrightarrow> round_even k a = a"
proof -
  assume "a mod 2 ^ k = 0"
  then have "(2::int) ^ k dvd a" by (simp add: mod_eq_0_iff_dvd)
  then have "a div 2 ^ k * 2 ^ k = a" by (rule dvd_div_mult_self)
  with \<open>a mod 2 ^ k = 0\<close> show ?thesis by (simp add: round_even_def Let_def)
qed

lemma float_exponent_small: "a < 2 ^ 53 \<Longrightarrow> float_exponent a = 0"
  by (simp add: float_exponent_def)

lemma float64_exact:
  assumes "\<bar>x\<bar> \<le> 2 ^ 53"
  shows "float64 x = x"
proof -
  have "round_even (float_exponent \<bar>x\<bar>) \<bar>x\<bar> = \<bar>x\<bar>"
  proof (cases "\<bar>x\<bar> < 2 ^ 53")
    case True
    then show ?thesis by (simp add: float_exponent_small round_even_0)
  next
    case False
    with assms have eq: "\<bar>x\<bar> = 2 ^ 53" by simp
    have "float_exponent (2 ^ 53) = 1" by (simp add: float_exponent_def)
    moreover have "round_even 1 (2 ^ 53) = 2 ^ 53" by (rule round_even_exact) simp
    ultimately show ?thesis unfolding eq by simp
  qed
  then show ?thesis by (simp add: float64_def mult_sgn_abs)
qed

lemma float64_0 [simp]: "float64 0 = 0"
  by (simp add: float64_def)

lemma float_exponent_le: "0 < a \<Longrightarrow> 2 ^ float_exponent a \<le> a"
  by (simp add: float_exponent_def)

lemma float_exponent_gt:
  "a < 2 ^ 63 \<Longrightarrow> a < 2 ^ (53 + float_exponent a) \<and> 53 + float_exponent a \<le> 63"
  by (simp add: float_exponent_def)

lemma round_even_pos:
  assumes "0 < a" "2 ^ k \<le> a"
  shows "0 < round_even k a"
proof -
  have "0 < a div 2 ^ k"
    using assms by (simp add: pos_imp_zdiv_pos_iff)
  then have "0 < (a div 2 ^ k) * 2 ^ k" by simp
  with round_even_lower [of a k] assms show ?thesis by linarith
qed

lemma float64_neg: "x < 0 \<Longrightarrow> float64 x < 0"
proof -
  assume x: "x < 0"
  then have "0 < \<bar>x\<bar>" by simp
  from round_even_pos [OF this float_exponent_le [OF this]]
  show ?thesis using x by (simp add: float64_def)
qed

lemma round_even_bound:
  assumes "0 \<le> a" "a < 2 ^ (53 + k)"
  shows "round_even k a \<le> 2 ^ (53 + k)"
proof -
  have "a < 2 ^ 53 * 2 ^ k" using assms(2) by (simp add: power_add)
  then have "a div 2 ^ k < 2 ^ 53"
    by (intro zdiv_lt) simp_all
  then have "a div 2 ^ k + 1 \<le> 2 ^ 53" by simp
  then have "(a div 2 ^ k + 1) * 2 ^ k \<le> 2 ^ 53 * 2 ^ k"
    by (rule mult_right_mono) simp
  also have "\<dots> = 2 ^ (53 + k)" by (simp add: power_add)
  finally show ?thesis using round_even_upper [OF assms(1), of k] by linarith
qed

lemma float64_le: "x \<le> max_int64 \<Longrightarrow> float64 x \<le> 2 ^ 63"
proof (cases "0 < x")
  case False
  then have "x = 0 \<or> x < 0" by auto
  then show ?thesis using float64_neg [of x] by (auto simp: float64_def)
next
  case True
  assume "x \<le> max_int64"
  then have lt: "x < 2 ^ 63" by (simp add: max_int64_def)
  from float_exponent_gt [OF lt] have b: "x < 2 ^ (53 + float_exponent x)"
    and k: "53 + float_exponent x \<le> 63" by simp_all
  from round_even_bound [OF _ b] True
  have "round_even (float_exponent x) x \<le> 2 ^ (53 + float_exponent x)"
    by simp
  also have "\<dots> \<le> (2::int) ^ 63" using k by (intro power_increasing) simp_all
  finally show ?thesis using True by (simp add: float64_def)
qed

lemma int64_range: "min_int64 \<le> int64 f \<and> int64 f \<le> max_int64"
  by (simp add: int64_def min_int64_def max_int64_def)

lemma int64_id: "min_int64 \<le> f \<Longrightarrow> f \<le> max_int64 \<Longrightarrow> int64 f = f"
  by (simp add: int64_def)

lemma int64_small: "0 \<le> f \<Longrightarrow> f \<le> 2 ^ 53 \<Longrightarrow> int64 f = f"
  by (rule int64_id) (simp_all add: min_int64_def max_int64_def)

lemma starts_simps [simp]:
  "starts [] = []"
  "starts (cv # convs) = (fst cv, int64 (snd cv)) # starts convs"
  "map fst (starts convs) = map fst convs"
  "fst ` set (starts convs) = fst ` set convs"
  by (simp_all add: starts_def image_image)

lemma starts_member: "(c, s) \<in> set convs \<Longrightarrow> (c, int64 s) \<in> set (starts convs)"
  by (force simp: starts_def)

lemma UnixMilli_time_UnixMilli [simp]: "UnixMilli (time_UnixMilli x) = x"
  by (simp add: UnixMilli_def time_UnixMilli_def)

lemma UnixMilli_mono: "a \<le> b \<Longrightarrow> UnixMilli a \<le> UnixMilli b"
  by (simp add: UnixMilli_def zdiv_mono1)

lemma newLevel_of_nowrap:
  assumes "min_int64 \<le> 3 * N" "3 * N \<le> max_int64"
  shows "newLevel_of N w cur =
     (if w > 3 * N \<and> cur < 3 then Some 3
      else if w > 2 * N \<and> cur < 2 then Some 2
      else if w > N \<and> cur < 1 then Some 1
      else None)"
proof -
  have "min_int64 \<le> 2 * N" "2 * N \<le> max_int64"
    using assms by (auto simp: min_int64_def max_int64_def)
  then have "wrap64 (N * 2) = 2 * N" "wrap64 (N * 3) = 3 * N"
    using assms by (simp_all add: wrap64_id mult.commute)
  then show ?thesis by (simp add: newLevel_of_def)
qed

lemma newLevel_of_sound:
  assumes "3 * N \<le> max_int64" "newLevel_of N w cur = Some k"
  shows "k \<in> {1, 2, 3} \<and> w > k * N \<and> cur < k"
proof -
  have "2 * N \<le> max_int64"
    using assms(1) by (auto simp: max_int64_def)
  then have "2 * N \<le> wrap64 (N * 2)" "3 * N \<le> wrap64 (N * 3)"
    using assms(1) wrap64_ge [of "N * 2"] wrap64_ge [of "N * 3"] by (simp_all add: mult.commute)
  then show ?thesis
    using assms(2) by (auto simp: newLevel_of_def split: if_splits)
qed

lemma level_times_interval:
  assumes "3 * N \<le> max_int64" "k \<in> {1, 2, 3}"
  shows "k * N \<le> max_int64"
  using assms by (auto simp: max_int64_def)

lemma due_of_wrapped:
  assumes "3 * N \<le> max_int64" "0 \<le> now" "now \<le> max_int64"
    and "min_int64 \<le> st" "st \<le> max_int64"
    and "newLevel_of N (wrap64 (now - st)) cur = Some k"
  shows "k \<in> {1, 2, 3} \<and> k * N < now - st"
proof -
  from newLevel_of_sound [OF assms(1,6)]
  have k: "k \<in> {1, 2, 3}" and w: "k * N < wrap64 (now - st)" by simp_all
  have "k * N < now - st"
  proof (cases "now - st \<le> max_int64")
    case True
    moreover have "min_int64 \<le> now - st"
      using assms(2,5) by (simp add: min_int64_def max_int64_def)
    ultimately have "wrap64 (now - st) = now - st" by (simp add: wrap64_id)
    with w show ?thesis by simp
  next
    case False
    with level_times_interval [OF assms(1) k] show ?thesis by simp
  qed
  with k show ?thesis by simp
qed

lemma due_at_boundary:
  assumes N: "0 < N" "3 * N < max_int64"
  shows "wrap64 N = N" "newLevel_of N N 0 = None"
    and "wrap64 (N + 1) = N + 1" "newLevel_of N (N + 1) 0 = Some 1"
    and "wrap64 (2 * N) = 2 * N" "newLevel_of N (2 * N) 0 = Some 1"
    and "wrap64 (2 * N + 1) = 2 * N + 1" "newLevel_of N (2 * N + 1) 0 = Some 2"
    and "wrap64 (3 * N) = 3 * N" "newLevel_of N (3 * N) 0 = Some 2"
    and "wrap64 (3 * N + 1) = 3 * N + 1" "newLevel_of N (3 * N + 1) 0 = Some 3"
proof -
  have r: "min_int64 \<le> 3 * N" "3 * N \<le> max_int64"
    using N by (simp_all add: min_int64_def max_int64_def)
  have w: "wrap64 x = x" if "0 \<le> x" "x \<le> 3 * N + 1" for x
    using that N by (intro wrap64_id) (simp_all add: min_int64_def max_int64_def)
  show "wrap64 N = N" "wrap64 (N + 1) = N + 1"
    "wrap64 (2 * N) = 2 * N" "wrap64 (2 * N + 1) = 2 * N + 1"
    "wrap64 (3 * N) = 3 * N" "wrap64 (3 * N + 1) = 3 * N + 1"
    using N by (simp_all add: w)
  show "newLevel_of N N 0 = None" "newLevel_of N (N + 1) 0 = Some 1"
    "newLevel_of N (2 * N) 0 = Some 1" "newLevel_of N (2 * N + 1) 0 = Some 2"
    "newLevel_of N (3 * N) 0 = Some 2" "newLevel_of N (3 * N + 1) 0 = Some 3"
    using N by (simp_all add: newLevel_of_nowrap [OF r])
qed

lemma currentLevel_of_unparsable: "Atoi v = None \<Longrightarrow> currentLevel_of (Some v) = 0"
  by (simp add: currentLevel_of_def)

lemma issue_fields [simp]:
  "notification_states (issue k r) = notification_states r"
  "timeout_events (issue k r) = timeout_events r"
  "waiting_conversations (issue k r) = waiting_conversations r"
  by (simp_all add: issue_def)

lemma appended_issue [simp]: "appended (issue k r) r' = appended r r'"
  by (simp add: appended_def)

lemma HGet_eq:
  "HGet e c r =
     (if fails e (HGET c) then (([], OtherError), issue (HGET c) r)
      else ((case notification_states r c of None \<Rightarrow> [] | Some v \<Rightarrow> v,
             case notification_states r c of None \<Rightarrow> RedisNil | Some v \<Rightarrow> NoError),
            issue (HGET c) r))"
  by (simp add: HGet_def split: option.splits)

lemma publish_eq:
  "publishTimeoutEvent e c lvl st r =
     (if json_Marshal e (notification_of e c lvl st) \<noteq> NoError then (OtherError, r)
      else if fails e (XADD (event_values e c lvl st))
      then (OtherError, issue (XADD (event_values e c lvl st)) r)
      else (NoError, issue (XADD (event_values e c lvl st))
              (r\<lparr>timeout_events := timeout_events r @ [event_values e c lvl st]\<rparr>)))"
  by (simp add: publishTimeoutEvent_def XAdd_def event_values_def notification_of_def Let_def)

lemma pTD_body:
  "processTimeoutDetection cfg e c st now r =
     (let r1 = snd (HGet e c r); s = fst (fst (HGet e c r)); err = snd (fst (HGet e c r)) in
      if err \<noteq> NoError \<and> err \<noteq> RedisNil then r1
      else case newLevel_of (TimeoutIntervalMS cfg) (wrap64 (now - st))
                (if s \<noteq> [] then (case Atoi s of Some lvl \<Rightarrow> lvl | None \<Rightarrow> 0) else 0) of
             None \<Rightarrow> r1
           | Some nl \<Rightarrow>
               if fst (publishTimeoutEvent e c nl st r1) \<noteq> NoError
               then snd (publishTimeoutEvent e c nl st r1)
               else snd (HSet e c (Itoa nl) (snd (publishTimeoutEvent e c nl st r1))))"
  unfolding processTimeoutDetection_def newLevel_of_def Let_def split_def
  by (rule refl)

lemma pTD_eq:
  "processTimeoutDetection cfg e c st now r =
     (if fails e (HGET c) then issue (HGET c) r
      else (case newLevel_of (TimeoutIntervalMS cfg) (wrap64 (now - st))
                   (currentLevel_of (notification_states r c)) of
              None \<Rightarrow> issue (HGET c) r
            | Some nl \<Rightarrow>
                if json_Marshal e (notification_of e c nl st) \<noteq> NoError then issue (HGET c) r
                else if fails e (XADD (event_values e c nl st))
                then issue (XADD (event_values e c nl st)) (issue (HGET c) r)
                else snd (HSet e c (Itoa nl)
                       (issue (XADD (event_values e c nl st))
                          ((issue (HGET c) r)
                             \<lparr>timeout_events := timeout_events r @ [event_values e c nl st]\<rparr>)))))"
proof (cases "fails e (HGET c)")
  case True
  then show ?thesis by (simp add: pTD_body HGet_def)
next
  case False
  have h: "HGet e c r =
      ((case notification_states r c of None \<Rightarrow> [] | Some s \<Rightarrow> s,
        case notification_states r c of None \<Rightarrow> RedisNil | Some s \<Rightarrow> NoError),
       issue (HGET c) r)"
    using False by (simp add: HGet_def split: option.splits)
  have cur: "(if (case notification_states r c of None \<Rightarrow> [] | Some s \<Rightarrow> s) \<noteq> []
              then (case Atoi (case notification_states r c of None \<Rightarrow> [] | Some s \<Rightarrow> s) of
                      Some lvl \<Rightarrow> lvl | None \<Rightarrow> 0)
              else 0) = currentLevel_of (notification_states r c)"
    by (simp add: currentLevel_of_def split: option.splits)
  have err: "(case notification_states r c of None \<Rightarrow> RedisNil | Some s \<Rightarrow> NoError) \<noteq> NoError \<and>
             (case notification_states r c of None \<Rightarrow> RedisNil | Some s \<Rightarrow> NoError) \<noteq> RedisNil
             \<longleftrightarrow> False"
    by (simp split: option.splits)
  show ?thesis
  proof (cases "newLevel_of (TimeoutIntervalMS cfg) (wrap64 (now - st))
            (currentLevel_of (notification_states r c))")
    case None
    show ?thesis
      unfolding pTD_body h Let_def fst_conv snd_conv cur err
      using False None by simp
  next
    case (Some nl)
    show ?thesis
      unfolding pTD_body h Let_def fst_conv snd_conv cur err
      using False Some by (simp add: publish_eq issue_def)
  qed
qed

lemma pCT_body:
  "processConversationTimeout cfg e c st now s =
     (let r1 = snd (HGet e c (snd s)); v = fst (fst (HGet e c (snd s)));
          err = snd (fst (HGet e c (snd s))) in
      if err \<noteq> NoError \<and> err \<noteq> RedisNil then (fst s, r1)
      else case newLevel_of (TimeoutIntervalMS cfg) (wrap64 (now - st))
                (if v \<noteq> [] then (case Atoi v of Some lvl \<Rightarrow> lvl | None \<Rightarrow> 0) else 0) of
             None \<Rightarrow> (fst s, r1)
           | Some nl \<Rightarrow>
               if fst (sendNotification e c nl st (fst s)) \<noteq> NoError
               then (snd (sendNotification e c nl st (fst s)), r1)
               else if fst (HSet e c (Itoa nl) r1) \<noteq> NoError
                    then (snd (sendNotification e c nl st (fst s)), snd (HSet e c (Itoa nl) r1))
                    else ((snd (sendNotification e c nl st (fst s)))
                            \<lparr>metrics := (metrics (snd (sendNotification e c nl st (fst s))))
                                \<lparr>TimeoutNotificationsSent :=
                                    Inc (TimeoutNotificationsSent (metrics (snd (sendNotification e c nl st (fst s)))))
                                      (''level'' @ Itoa nl)\<rparr>\<rparr>,
                          snd (HSet e c (Itoa nl) r1)))"
  unfolding processConversationTimeout_def newLevel_of_def Let_def split_def
  by (rule refl)

lemma pCT_eq:
  "processConversationTimeout cfg e c st now s =
     (if fails e (HGET c) then (fst s, issue (HGET c) (snd s))
      else (case newLevel_of (TimeoutIntervalMS cfg) (wrap64 (now - st))
                   (currentLevel_of (notification_states (snd s) c)) of
              None \<Rightarrow> (fst s, issue (HGET c) (snd s))
            | Some nl \<Rightarrow>
                if fails e (HSET c (Itoa nl))
                then ((fst s)\<lparr>notifications := notifications (fst s) @ [notification_of e c nl st]\<rparr>,
                      issue (HSET c (Itoa nl)) (issue (HGET c) (snd s)))
                else ((fst s)\<lparr>notifications := notifications (fst s) @ [notification_of e c nl st],
                               metrics := (metrics (fst s))\<lparr>TimeoutNotificationsSent :=
                                   Inc (TimeoutNotificationsSent (metrics (fst s))) (''level'' @ Itoa nl)\<rparr>\<rparr>,
                      issue (HSET c (Itoa nl))
                        ((issue (HGET c) (snd s))
                           \<lparr>notification_states := (notification_states (snd s))(c \<mapsto> Itoa nl)\<rparr>))))"
proof (cases "fails e (HGET c)")
  case True
  then show ?thesis by (simp add: pCT_body HGet_def)
next
  case False
  let ?r = "snd s"
  have h: "HGet e c ?r =
      ((case notification_states ?r c of None \<Rightarrow> [] | Some v \<Rightarrow> v,
        case notification_states ?r c of None \<Rightarrow> RedisNil | Some v \<Rightarrow> NoError),
       issue (HGET c) ?r)"
    using False by (simp add: HGet_def split: option.splits)
  have cur: "(if (case notification_states ?r c of None \<Rightarrow> [] | Some v \<Rightarrow> v) \<noteq> []
              then (case Atoi (case notification_states ?r c of None \<Rightarrow> [] | Some v \<Rightarrow> v) of
                      Some lvl \<Rightarrow> lvl | None \<Rightarrow> 0)
              else 0) = currentLevel_of (notification_states ?r c)"
    by (simp add: currentLevel_of_def split: option.splits)
  have err: "(case notification_states ?r c of None \<Rightarrow> RedisNil | Some v \<Rightarrow> NoError) \<noteq> NoError \<and>
             (case notification_states ?r c of None \<Rightarrow> RedisNil | Some v \<Rightarrow> NoError) \<noteq> RedisNil
             \<longleftrightarrow> False"
    by (simp split: option.splits)
  show ?thesis
  proof (cases "newLevel_of (TimeoutIntervalMS cfg) (wrap64 (now - st))
            (currentLevel_of (notification_states ?r c))")
    case None
    show ?thesis
      unfolding pCT_body h Let_def fst_conv snd_conv cur err
      using False None by simp
  next
    case (Some nl)
    show ?thesis
      unfolding pCT_body h Let_def fst_conv snd_conv cur err
      using False Some
      by (simp add: sendNotification_def notification_of_def HSet_def issue_def Let_def)
  qed
qed

lemma pTD_events:
  "timeout_events (processTimeoutDetection cfg e c s now r) =
     timeout_events r @ published cfg e now (notification_states r c) (c, s)"
  by (simp add: pTD_eq published_def HSet_def issue_def split: option.splits)

lemma pTD_states_other:
  "d \<noteq> c \<Longrightarrow> notification_states (processTimeoutDetection cfg e c s now r) d = notification_states r d"
  by (simp add: pTD_eq HSet_def issue_def split: option.splits)

lemma pTD_waiting [simp]:
  "waiting_conversations (processTimeoutDetection cfg e c s now r) = waiting_conversations r"
  by (simp add: pTD_eq HSet_def issue_def split: option.splits)

lemma pTD_state_self:
  "notification_states (processTimeoutDetection cfg e c s now r) c =
     (case published cfg e now (notification_states r c) (c, s) of
        [] \<Rightarrow> notification_states r c
      | v # vs \<Rightarrow>
          if fails e (HSET c (Itoa (level v))) then notification_states r c
          else Some (Itoa (level v)))"
  by (simp add: pTD_eq published_def HSet_def issue_def event_values_def split: option.splits)

lemma pTD_appended:
  "appended r (processTimeoutDetection cfg e c s now r) =
     published cfg e now (notification_states r c) (c, s)"
  by (simp add: appended_def pTD_events)

lemma pTD_calls:
  "calls (processTimeoutDetection cfg e c s now r) =
     calls r @ HGET c #
       (if fails e (HGET c) then []
        else (case newLevel_of (TimeoutIntervalMS cfg) (wrap64 (now - s))
                     (currentLevel_of (notification_states r c)) of
                None \<Rightarrow> []
              | Some nl \<Rightarrow>
                  if json_Marshal e (notification_of e c nl s) \<noteq> NoError then []
                  else if fails e (XADD (event_values e c nl s)) then [XADD (event_values e c nl s)]
                  else [XADD (event_values e c nl s), HSET c (Itoa nl)]))"
  by (simp add: pTD_eq HSet_def issue_def split: option.splits)

lemma published_conv: "v \<in> set (published cfg e now stored conv) \<Longrightarrow> conversation_id v = fst conv"
  by (auto simp: published_def event_values_def split: if_splits option.splits)

lemma published_due:
  assumes "3 * TimeoutIntervalMS cfg \<le> max_int64" "0 \<le> now" "now \<le> max_int64"
    and "min_int64 \<le> snd cv" "snd cv \<le> max_int64"
    and "v \<in> set (published cfg e now stored cv)"
  shows "level v \<in> {1, 2, 3} \<and> level v * TimeoutIntervalMS cfg < now - agent_message_time v
         \<and> detected_at v = UnixMilli (time_Now e (conversation_id v))
         \<and> conversation_id v = fst cv \<and> agent_message_time v = snd cv"
proof -
  from assms(6) have "\<exists>nl. newLevel_of (TimeoutIntervalMS cfg) (wrap64 (now - snd cv)) (currentLevel_of stored) = Some nl
      \<and> v = event_values e (fst cv) nl (snd cv)"
    by (cases "newLevel_of (TimeoutIntervalMS cfg) (wrap64 (now - snd cv)) (currentLevel_of stored)")
       (auto simp: published_def split: if_splits)
  then obtain nl where
    nl: "newLevel_of (TimeoutIntervalMS cfg) (wrap64 (now - snd cv)) (currentLevel_of stored) = Some nl"
    and v: "v = event_values e (fst cv) nl (snd cv)"
    by blast
  from due_of_wrapped [OF assms(1,2,3,4,5) nl] show ?thesis
    by (simp add: v event_values_def)
qed

lemma pCT_notifications:
  "notifications (fst (processConversationTimeout cfg e c s now st)) =
     notifications (fst st) @ notified cfg e now (notification_states (snd st) c) (c, s)"
  by (simp add: pCT_eq notified_def split: option.splits)

lemma pCT_states_other:
  "d \<noteq> c \<Longrightarrow>
   notification_states (snd (processConversationTimeout cfg e c s now st)) d =
     notification_states (snd st) d"
  by (simp add: pCT_eq issue_def split: option.splits)

lemma pCT_notified_since:
  "notified_since (fst st) (fst (processConversationTimeout cfg e c s now st)) =
     notified cfg e now (notification_states (snd st) c) (c, s)"
  by (simp add: notified_since_def pCT_notifications)

lemma pCT_calls:
  "calls (snd (processConversationTimeout cfg e c s now st)) =
     calls (snd st) @ HGET c #
       (if fails e (HGET c) then []
        else (case newLevel_of (TimeoutIntervalMS cfg) (wrap64 (now - s))
                     (currentLevel_of (notification_states (snd st) c)) of
                None \<Rightarrow> []
              | Some nl \<Rightarrow> [HSET c (Itoa nl)]))"
  by (simp add: pCT_eq issue_def split: option.splits)

lemma notified_due:
  assumes "3 * TimeoutIntervalMS cfg \<le> max_int64" "0 \<le> now" "now \<le> max_int64"
    and "min_int64 \<le> snd cv" "snd cv \<le> max_int64"
    and "n \<in> set (notified cfg e now stored cv)"
  shows "Level n \<in> {1, 2, 3}
         \<and> Level n * TimeoutIntervalMS cfg < now - UnixMilli (AgentMessageTime n)
         \<and> TimeoutEvent.ConversationID n = fst cv"
proof -
  from assms(6) have "\<exists>nl. newLevel_of (TimeoutIntervalMS cfg) (wrap64 (now - snd cv)) (currentLevel_of stored) = Some nl
      \<and> n = notification_of e (fst cv) nl (snd cv)"
    by (cases "newLevel_of (TimeoutIntervalMS cfg) (wrap64 (now - snd cv)) (currentLevel_of stored)")
       (auto simp: notified_def split: if_splits)
  then obtain nl where
    nl: "newLevel_of (TimeoutIntervalMS cfg) (wrap64 (now - snd cv)) (currentLevel_of stored) = Some nl"
    and n: "n = notification_of e (fst cv) nl (snd cv)"
    by blast
  from due_of_wrapped [OF assms(1,2,3,4,5) nl] show ?thesis
    by (simp add: n notification_of_def)
qed

lemma loop_states_other:
  "c \<notin> fst ` set convs \<Longrightarrow>
   notification_states (detect_loop cfg e now convs r) c = notification_states r c"
proof (induction convs arbitrary: r)
  case Nil
  then show ?case by simp
next
  case (Cons cv convs)
  then have "c \<noteq> fst cv" "c \<notin> fst ` set convs" by auto
  then show ?case using Cons.IH by (simp add: pTD_states_other)
qed

lemma loop_events:
  "distinct (map fst convs) \<Longrightarrow>
   timeout_events (detect_loop cfg e now convs r) =
     timeout_events r
       @ concat (map (\<lambda>cv. published cfg e now (notification_states r (fst cv)) cv) (starts convs))"
proof (induction convs arbitrary: r)
  case Nil
  then show ?case by simp
next
  case (Cons cv convs)
  let ?r1 = "processTimeoutDetection cfg e (fst cv) (int64 (snd cv)) now r"
  from Cons.prems have d: "distinct (map fst convs)" and nin: "fst cv \<notin> fst ` set convs"
    by auto
  have same: "map (\<lambda>x. published cfg e now (notification_states ?r1 (fst x)) x) (starts convs) =
              map (\<lambda>x. published cfg e now (notification_states r (fst x)) x) (starts convs)"
  proof (rule map_cong [OF refl])
    fix x assume "x \<in> set (starts convs)"
    then have "fst x \<in> fst ` set (starts convs)" by (rule imageI)
    then have "fst x \<in> fst ` set convs" by simp
    with nin have "fst x \<noteq> fst cv" by metis
    then show "published cfg e now (notification_states ?r1 (fst x)) x =
               published cfg e now (notification_states r (fst x)) x"
      by (simp add: pTD_states_other)
  qed
  show ?case
    using Cons.IH [OF d, of ?r1] by (simp add: pTD_events same)
qed

lemma loop_state_member:
  "distinct (map fst convs) \<Longrightarrow> (c, s) \<in> set convs \<Longrightarrow>
   notification_states (detect_loop cfg e now convs r) c =
     notification_states (processTimeoutDetection cfg e c (int64 s) now r) c"
proof (induction convs arbitrary: r)
  case Nil
  then show ?case by simp
next
  case (Cons cv convs)
  show ?case
  proof (cases "cv = (c, s)")
    case True
    with Cons.prems have "c \<notin> fst ` set convs" by auto
    then show ?thesis using True by (simp add: loop_states_other)
  next
    case False
    with Cons.prems have mem: "(c, s) \<in> set convs" and d: "distinct (map fst convs)" by auto
    from Cons.prems have "fst cv \<notin> fst ` set convs" by simp
    moreover from mem have "c \<in> fst ` set convs" by (metis fst_conv imageI)
    ultimately have ne: "fst cv \<noteq> c" by metis
    let ?r1 = "processTimeoutDetection cfg e (fst cv) (int64 (snd cv)) now r"
    have "notification_states (detect_loop cfg e now convs ?r1) c =
          notification_states (processTimeoutDetection cfg e c (int64 s) now ?r1) c"
      by (rule Cons.IH [OF d mem])
    also have "\<dots> = notification_states (processTimeoutDetection cfg e c (int64 s) now r) c"
    proof -
      have eq: "notification_states ?r1 c = notification_states r c"
        using ne by (simp add: pTD_states_other)
      show ?thesis unfolding pTD_state_self eq by (rule refl)
    qed
    finally show ?thesis by simp
  qed
qed

lemma loop_appends:
  "\<exists>new. timeout_events (detect_loop cfg e now convs r) = timeout_events r @ new
         \<and> set new \<subseteq> (\<Union>cv \<in> set (starts convs). \<Union>stored. set (published cfg e now stored cv))"
proof (induction convs arbitrary: r)
  case Nil
  then show ?case by simp
next
  case (Cons cv convs)
  let ?cv = "(fst cv, int64 (snd cv))"
  let ?r1 = "processTimeoutDetection cfg e (fst cv) (int64 (snd cv)) now r"
  from Cons.IH [of ?r1] obtain new where
    new: "timeout_events (detect_loop cfg e now convs ?r1) = timeout_events ?r1 @ new"
    and sub: "set new \<subseteq> (\<Union>cv \<in> set (starts convs). \<Union>stored. set (published cfg e now stored cv))"
    by blast
  have "timeout_events (detect_loop cfg e now (cv # convs) r) =
        timeout_events r @ (published cfg e now (notification_states r (fst cv)) ?cv @ new)"
    using new by (simp add: pTD_events)
  moreover have "set (published cfg e now (notification_states r (fst cv)) ?cv @ new)
        \<subseteq> (\<Union>cv \<in> set (starts (cv # convs)). \<Union>stored. set (published cfg e now stored cv))"
    using sub by auto
  ultimately show ?case by blast
qed

lemma detect_eq:
  "detectAndPublishTimeouts cfg e t s =
     (if fails e (ZRANGEBYSCORE 0 (UnixMilli t))
      then (fst s, issue (ZRANGEBYSCORE 0 (UnixMilli t)) (snd s))
      else ((fst s)\<lparr>WaitingConversationsCount :=
                       float64 (int (length (filter (in_range 0 (float64 (UnixMilli t)))
                                               (waiting_conversations (snd s)))))\<rparr>,
            detect_loop cfg e (UnixMilli t)
              (filter (in_range 0 (float64 (UnixMilli t))) (waiting_conversations (snd s)))
              (issue (ZRANGEBYSCORE 0 (UnixMilli t)) (snd s))))"
  by (simp add: detectAndPublishTimeouts_def ZRangeByScoreWithScores_def Let_def)

lemma detect_appends:
  "\<exists>new. timeout_events (snd (detectAndPublishTimeouts cfg e t s)) = timeout_events (snd s) @ new
     \<and> set new \<subseteq> (\<Union>cv \<in> set (starts (filter (in_range 0 (float64 (UnixMilli t)))
                                          (waiting_conversations (snd s)))).
                       \<Union>stored. set (published cfg e (UnixMilli t) stored cv))"
proof (cases "fails e (ZRANGEBYSCORE 0 (UnixMilli t))")
  case True
  then show ?thesis by (simp add: detect_eq issue_def)
next
  case False
  from loop_appends [of cfg e "UnixMilli t"
      "filter (in_range 0 (float64 (UnixMilli t))) (waiting_conversations (snd s))"
      "issue (ZRANGEBYSCORE 0 (UnixMilli t)) (snd s)"]
  show ?thesis using False by (simp add: detect_eq issue_def)
qed

lemma loop1_notifications:
  "distinct (map fst convs) \<Longrightarrow>
   notifications (fst (checkTimeouts_loop cfg e now convs st)) =
     notifications (fst st)
       @ concat (map (\<lambda>cv. notified cfg e now (notification_states (snd st) (fst cv)) cv)
                   (starts convs))"
proof (induction convs arbitrary: st)
  case Nil
  then show ?case by simp
next
  case (Cons cv convs)
  let ?s1 = "processConversationTimeout cfg e (fst cv) (int64 (snd cv)) now st"
  from Cons.prems have d: "distinct (map fst convs)" and nin: "fst cv \<notin> fst ` set convs"
    by auto
  have same: "map (\<lambda>x. notified cfg e now (notification_states (snd ?s1) (fst x)) x) (starts convs) =
              map (\<lambda>x. notified cfg e now (notification_states (snd st) (fst x)) x) (starts convs)"
  proof (rule map_cong [OF refl])
    fix x assume "x \<in> set (starts convs)"
    then have "fst x \<in> fst ` set (starts convs)" by (rule imageI)
    then have "fst x \<in> fst ` set convs" by simp
    with nin have "fst x \<noteq> fst cv" by metis
    then show "notified cfg e now (notification_states (snd ?s1) (fst x)) x =
               notified cfg e now (notification_states (snd st) (fst x)) x"
      by (simp add: pCT_states_other)
  qed
  show ?case
    using Cons.IH [OF d, of ?s1] by (simp add: pCT_notifications same)
qed

lemma loop1_appends:
  "\<exists>new. notifications (fst (checkTimeouts_loop cfg e now convs st)) = notifications (fst st) @ new
         \<and> set new \<subseteq> (\<Union>cv \<in> set (starts convs). \<Union>stored. set (notified cfg e now stored cv))"
proof (induction convs arbitrary: st)
  case Nil
  then show ?case by simp
next
  case (Cons cv convs)
  let ?cv = "(fst cv, int64 (snd cv))"
  let ?s1 = "processConversationTimeout cfg e (fst cv) (int64 (snd cv)) now st"
  from Cons.IH [of ?s1] obtain new where
    new: "notifications (fst (checkTimeouts_loop cfg e now convs ?s1)) = notifications (fst ?s1) @ new"
    and sub: "set new \<subseteq> (\<Union>cv \<in> set (starts convs). \<Union>stored. set (notified cfg e now stored cv))"
    by blast
  have "notifications (fst (checkTimeouts_loop cfg e now (cv # convs) st)) =
        notifications (fst st) @ (notified cfg e now (notification_states (snd st) (fst cv)) ?cv @ new)"
    using new by (simp add: pCT_notifications)
  moreover have "set (notified cfg e now (notification_states (snd st) (fst cv)) ?cv @ new)
        \<subseteq> (\<Union>cv \<in> set (starts (cv # convs)). \<Union>stored. set (notified cfg e now stored cv))"
    using sub by auto
  ultimately show ?case by blast
qed

lemma checkTimeouts_eq:
  "checkTimeouts cfg e t s =
     (if fails e (ZRANGEBYSCORE 0 (UnixMilli t))
      then (fst s, issue (ZRANGEBYSCORE 0 (UnixMilli t)) (snd s))
      else checkTimeouts_loop cfg e (UnixMilli t)
             (filter (in_range 0 (float64 (UnixMilli t))) (waiting_conversations (snd s)))
             ((fst s)\<lparr>metrics := (metrics (fst s))\<lparr>WaitingConversationsCount :=
                  float64 (int (length (filter (in_range 0 (float64 (UnixMilli t)))
                                          (waiting_conversations (snd s)))))\<rparr>\<rparr>,
              issue (ZRANGEBYSCORE 0 (UnixMilli t)) (snd s)))"
  by (simp add: checkTimeouts_def ZRangeByScoreWithScores_def Let_def)

lemma checkTimeouts_appends:
  "\<exists>new. notifications (fst (checkTimeouts cfg e t s)) = notifications (fst s) @ new
     \<and> set new \<subseteq> (\<Union>cv \<in> set (starts (filter (in_range 0 (float64 (UnixMilli t)))
                                          (waiting_conversations (snd s)))).
                       \<Union>stored. set (notified cfg e (UnixMilli t) stored cv))"
proof (cases "fails e (ZRANGEBYSCORE 0 (UnixMilli t))")
  case True
  then show ?thesis by (simp add: checkTimeouts_eq issue_def)
next
  case False
  from loop1_appends [of cfg e "UnixMilli t"
      "filter (in_range 0 (float64 (UnixMilli t))) (waiting_conversations (snd s))"
      "((fst s)\<lparr>metrics := (metrics (fst s))\<lparr>WaitingConversationsCount :=
                  float64 (int (length (filter (in_range 0 (float64 (UnixMilli t)))
                                          (waiting_conversations (snd s)))))\<rparr>\<rparr>,
              issue (ZRANGEBYSCORE 0 (UnixMilli t)) (snd s))"]
  show ?thesis using False by (simp add: checkTimeouts_eq)
qed

lemma filter_published_other:
  "fst cv \<noteq> c \<Longrightarrow> filter (\<lambda>v. conversation_id v = c) (published cfg e now stored cv) = []"
  by (auto simp: filter_empty_conv dest: published_conv)

lemma filter_published_self:
  "filter (\<lambda>v. conversation_id v = fst cv) (published cfg e now stored cv) = published cfg e now stored cv"
  by (auto simp: filter_id_conv dest: published_conv)

lemma filter_concat_absent:
  "c \<notin> fst ` set convs \<Longrightarrow>
   filter (\<lambda>v. conversation_id v = c) (concat (map (\<lambda>cv. published cfg e now (f cv) cv) convs)) = []"
  by (induction convs) (auto simp: filter_published_other)

lemma filter_concat_member:
  "distinct (map fst convs) \<Longrightarrow> (c, s) \<in> set convs \<Longrightarrow>
   filter (\<lambda>v. conversation_id v = c) (concat (map (\<lambda>cv. published cfg e now (f cv) cv) convs))
     = published cfg e now (f (c, s)) (c, s)"
proof (induction convs)
  case Nil
  then show ?case by simp
next
  case (Cons cv convs)
  show ?case
  proof (cases "cv = (c, s)")
    case True
    with Cons.prems have "c \<notin> fst ` set convs" by auto
    then show ?thesis
      using True filter_published_self [of "(c, s)" cfg e now "f (c, s)"]
      by (simp add: filter_concat_absent)
  next
    case False
    with Cons.prems have mem: "(c, s) \<in> set convs" and d: "distinct (map fst convs)" by auto
    from Cons.prems have "fst cv \<notin> fst ` set convs" by simp
    moreover from mem have "c \<in> fst ` set convs" by (metis fst_conv imageI)
    ultimately have ne: "fst cv \<noteq> c" by metis
    then show ?thesis
      using Cons.IH [OF d mem] by (simp add: filter_published_other)
  qed
qed

lemma filter_notified_other:
  "fst cv \<noteq> c \<Longrightarrow> filter (\<lambda>n. TimeoutEvent.ConversationID n = c) (notified cfg e now stored cv) = []"
  by (auto simp: filter_empty_conv notified_def notification_of_def split: if_splits option.splits)

lemma filter_notified_self:
  "filter (\<lambda>n. TimeoutEvent.ConversationID n = fst cv) (notified cfg e now stored cv) = notified cfg e now stored cv"
  by (auto simp: filter_id_conv notified_def notification_of_def split: if_splits option.splits)

lemma filter_concat1_absent:
  "c \<notin> fst ` set convs \<Longrightarrow>
   filter (\<lambda>n. TimeoutEvent.ConversationID n = c) (concat (map (\<lambda>cv. notified cfg e now (f cv) cv) convs)) = []"
  by (induction convs) (auto simp: filter_notified_other)

lemma filter_concat1_member:
  "distinct (map fst convs) \<Longrightarrow> (c, s) \<in> set convs \<Longrightarrow>
   filter (\<lambda>n. TimeoutEvent.ConversationID n = c) (concat (map (\<lambda>cv. notified cfg e now (f cv) cv) convs))
     = notified cfg e now (f (c, s)) (c, s)"
proof (induction convs)
  case Nil
  then show ?case by simp
next
  case (Cons cv convs)
  show ?case
  proof (cases "cv = (c, s)")
    case True
    with Cons.prems have "c \<notin> fst ` set convs" by auto
    then show ?thesis
      using True filter_notified_self [of "(c, s)" cfg e now "f (c, s)"]
      by (simp add: filter_concat1_absent)
  next
    case False
    with Cons.prems have mem: "(c, s) \<in> set convs" and d: "distinct (map fst convs)" by auto
    from Cons.prems have "fst cv \<notin> fst ` set convs" by simp
    moreover from mem have "c \<in> fst ` set convs" by (metis fst_conv imageI)
    ultimately have ne: "fst cv \<noteq> c" by metis
    then show ?thesis
      using Cons.IH [OF d mem] by (simp add: filter_notified_other)
  qed
qed

lemma detect_appended:
  assumes "\<not> fails e (ZRANGEBYSCORE 0 (UnixMilli t))" "distinct (map fst (waiting_conversations r))"
  shows "appended r (snd (detectAndPublishTimeouts cfg e t (m, r))) =
     concat (map (\<lambda>cv. published cfg e (UnixMilli t) (notification_states r (fst cv)) cv)
               (starts (filter (in_range 0 (float64 (UnixMilli t))) (waiting_conversations r))))"
proof -
  have "distinct (map fst (filter (in_range 0 (float64 (UnixMilli t))) (waiting_conversations r)))"
    using assms(2) by (rule distinct_map_filter)
  from loop_events [OF this] assms(1) show ?thesis
    by (simp add: detect_eq appended_def issue_def)
qed

lemma checkTimeouts_notified:
  assumes "\<not> fails e (ZRANGEBYSCORE 0 (UnixMilli t))" "distinct (map fst (waiting_conversations r))"
  shows "notified_since le (fst (checkTimeouts cfg e t (le, r))) =
     concat (map (\<lambda>cv. notified cfg e (UnixMilli t) (notification_states r (fst cv)) cv)
               (starts (filter (in_range 0 (float64 (UnixMilli t))) (waiting_conversations r))))"
proof -
  have "distinct (map fst (filter (in_range 0 (float64 (UnixMilli t))) (waiting_conversations r)))"
    using assms(2) by (rule distinct_map_filter)
  from loop1_notifications [OF this] assms(1) show ?thesis
    by (simp add: checkTimeouts_eq notified_since_def issue_def)
qed

lemma detect_member:
  assumes "\<not> fails e (ZRANGEBYSCORE 0 (UnixMilli t))" "distinct (map fst (waiting_conversations r))"
    and "(d, s') \<in> set (waiting_conversations r)" "0 \<le> s'" "s' \<le> float64 (UnixMilli t)"
  shows "filter (\<lambda>v. conversation_id v = d) (appended r (snd (detectAndPublishTimeouts cfg e t (m, r))))
           = appended r (processTimeoutDetection cfg e d (int64 s') (UnixMilli t) r)"
    and "notification_states (snd (detectAndPublishTimeouts cfg e t (m, r))) d
           = notification_states (processTimeoutDetection cfg e d (int64 s') (UnixMilli t) r) d"
proof -
  let ?now = "UnixMilli t"
  let ?scan = "filter (in_range 0 (float64 ?now)) (waiting_conversations r)"
  have mem0: "(d, s') \<in> set ?scan"
    using assms(3,4,5) by (simp add: in_range_def)
  then have mem: "(d, int64 s') \<in> set (starts ?scan)"
    by (rule starts_member)
  have dist0: "distinct (map fst ?scan)"
    using assms(2) by (rule distinct_map_filter)
  then have dist: "distinct (map fst (starts ?scan))"
    by simp
  show "filter (\<lambda>v. conversation_id v = d) (appended r (snd (detectAndPublishTimeouts cfg e t (m, r))))
           = appended r (processTimeoutDetection cfg e d (int64 s') ?now r)"
    unfolding detect_appended [OF assms(1,2)] pTD_appended
    using filter_concat_member [OF dist mem, of cfg e ?now "\<lambda>cv. notification_states r (fst cv)"]
    by simp
  have "notification_states (snd (detectAndPublishTimeouts cfg e t (m, r))) d
      = notification_states (processTimeoutDetection cfg e d (int64 s') ?now (issue (ZRANGEBYSCORE 0 ?now) r)) d"
    using assms(1) loop_state_member [OF dist0 mem0] by (simp add: detect_eq)
  also have "\<dots> = notification_states (processTimeoutDetection cfg e d (int64 s') ?now r) d"
    unfolding pTD_state_self issue_fields by (rule refl)
  finally show "notification_states (snd (detectAndPublishTimeouts cfg e t (m, r))) d
           = notification_states (processTimeoutDetection cfg e d (int64 s') ?now r) d" .
qed

lemma filter_other_None: "map_of (filter (\<lambda>p. fst p \<noteq> c) xs) c = None"
  by (simp add: map_of_eq_None_iff image_iff)

lemma filter_id_notin: "c \<notin> fst ` set xs \<Longrightarrow> filter (\<lambda>p. fst p \<noteq> c) xs = xs"
  by (induction xs) auto

lemma TrackAgentMessage_ok:
  assumes "TrackAgentMessage e m r = (NoError, r')"
  shows "r' = r\<lparr>waiting_conversations :=
                   filter (\<lambda>p. fst p \<noteq> AgentMessage.ConversationID m) (waiting_conversations r)
                     @ [(AgentMessage.ConversationID m, float64 (UnixMilli (AgentMessage.Timestamp m)))],
                notification_states := (notification_states r)(AgentMessage.ConversationID m := None),
                calls := calls r @ [ZADD (AgentMessage.ConversationID m)
                                      (float64 (UnixMilli (AgentMessage.Timestamp m))),
                                    HDEL (AgentMessage.ConversationID m)]\<rparr>"
  using assms
  by (auto simp: TrackAgentMessage_def ZAdd_def HDel_def issue_def first_error_def Let_def
           split: if_splits)

lemma ClearTimeout_eq:
  "ClearTimeout e resp r =
     (let c = CustomerResponse.ConversationID resp;
          r1 = (if fails e (ZREM c) then r
                else r\<lparr>waiting_conversations := filter (\<lambda>p. fst p \<noteq> c) (waiting_conversations r)\<rparr>);
          r2 = (if fails e (HDEL c) then r1
                else r1\<lparr>notification_states := (notification_states r1)(c := None)\<rparr>)
      in (if fails e (ZREM c) \<or> fails e (HDEL c) then OtherError else NoError,
          r2\<lparr>calls := calls r @ [ZREM c, HDEL c]\<rparr>))"
  by (simp add: ClearTimeout_def ZRem_def HDel_def issue_def first_error_def Let_def)

lemma Cleanup_eq:
  "CleanupExpiredConversations e now maxAge r =
     (let cutoff = UnixMilli (time_Add now (wrap64 (- maxAge)))
      in if fails e (ZREMRANGEBYSCORE 0 cutoff)
         then (OtherError, r\<lparr>calls := calls r @ [ZREMRANGEBYSCORE 0 cutoff]\<rparr>)
         else (NoError,
               r\<lparr>waiting_conversations :=
                    filter (\<lambda>p. \<not> (0 \<le> snd p \<and> snd p \<le> float64 cutoff)) (waiting_conversations r),
                  calls := calls r @ [ZREMRANGEBYSCORE 0 cutoff]\<rparr>))"
  by (simp add: CleanupExpiredConversations_def ZRemRangeByScore_def issue_def in_range_def Let_def)

lemma SetArgs_key_present:
  "timeout_leader r = Some l \<Longrightarrow>
   snd (fst (SetArgs e v d r)) \<noteq> NoError \<and> snd (SetArgs e v d r) = issue (SET_NX v d) r"
  by (simp add: SetArgs_def)

lemma renewLeadership_calls:
  "calls (snd (renewLeadership cfg e le r))
     = calls r @ [EVAL_RENEW (PodID cfg) (LeaderElectionTTL cfg)]"
  by (simp add: renewLeadership_def EvalRenew_def issue_def Let_def split: option.splits)

lemma json_Marshal_utc:
  assumes "zone_offset e (time_UnixMilli st) = 0" "zone_offset e (time_Now e c) = 0"
    and "0 \<le> st" "st < 253402300800000"
    and "0 \<le> time_Now e c" "time_Now e c < 253402300800000000000"
  shows "json_Marshal e (notification_of e c lvl st) = NoError"
proof -
  have "0 \<le> st * 1000000 div 1000000000" "st * 1000000 div 1000000000 < 253402300800"
    using assms(3,4) by (simp_all add: pos_imp_zdiv_nonneg_iff zdiv_lt)
  moreover have "0 \<le> time_Now e c div 1000000000" "time_Now e c div 1000000000 < 253402300800"
    using assms(5,6) by (simp_all add: pos_imp_zdiv_nonneg_iff zdiv_lt)
  ultimately show ?thesis
    using assms(1,2)
    by (simp add: json_Marshal_def MarshalJSON_def notification_of_def time_UnixMilli_def
          unix_year_0_def unix_year_10000_def Let_def)
qed

lemma parse_fails_iff: "isl (parseTimeoutEvent message) \<longleftrightarrow> \<not> well_formed message"
  by (simp add: parseTimeoutEvent_def well_formed_def numeric_field_def split: option.splits)

lemma processMessage_eq:
  "processMessage e sink message s =
     (case parseTimeoutEvent message of
        Inl err \<Rightarrow>
          ((fst s)\<lparr>StreamMessagesProcessed := Inc (StreamMessagesProcessed (fst s)) ''parse_error''\<rparr>,
           snd (XAck e (ID message) (snd s)))
      | Inr event \<Rightarrow>
          if sink event \<noteq> NoError
          then ((fst s)\<lparr>StreamMessagesProcessed :=
                  Inc (StreamMessagesProcessed (fst s)) ''notification_error''\<rparr>, snd s)
          else if fails e (XACK (ID message))
               then (fst s, snd (XAck e (ID message) (snd s)))
               else ((fst s)\<lparr>StreamMessagesProcessed := Inc (StreamMessagesProcessed (fst s)) ''success'',
                              TimeoutNotificationsSent :=
                                Inc (TimeoutNotificationsSent (fst s)) (''level'' @ Itoa (Level event))\<rparr>,
                     snd (XAck e (ID message) (snd s))))"
  by (simp add: processMessage_def acknowledgeMessage_def XAck_def Let_def split: sum.splits)

lemma XAck_calls: "calls (snd (XAck e i r)) = calls r @ [XACK i]"
  by (simp add: XAck_def issue_def)

lemma XAck_pending:
  "pending (snd (XAck e i r)) = (if fails e (XACK i) then pending r else filter (\<lambda>j. j \<noteq> i) (pending r))"
  by (simp add: XAck_def issue_def)

lemma env_ok_simps [simp]:
  "fails env_ok c = False" "time_Now env_ok conv = 5001000000"
  "zone_offset env_ok t = 0" "server_time env_ok = 5000"
  by (simp_all add: env_ok_def)

lemma env_xadd_down_simps [simp]:
  "fails env_xadd_down k = (case k of XADD v \<Rightarrow> conversation_id v = ''conv_a'' | _ \<Rightarrow> False)"
  "time_Now env_xadd_down conv = 5001000000"
  "zone_offset env_xadd_down t = 0"
  by (simp_all add: env_xadd_down_def)

lemma json_Marshal_examples [simp]:
  "0 \<le> st \<Longrightarrow> st < 253402300800000 \<Longrightarrow> json_Marshal env_ok (notification_of env_ok c lvl st) = NoError"
  "0 \<le> st \<Longrightarrow> st < 253402300800000 \<Longrightarrow>
     json_Marshal env_xadd_down (notification_of env_xadd_down c lvl st) = NoError"
  by (simp_all add: json_Marshal_utc)

lemma cfg_1s_simps [simp]:
  "TimeoutIntervalMS cfg_1s = 1000" "LeaderElectionTTL cfg_1s = 10" "PodID cfg_1s = ''pod-a''"
  "LeaderElectionTTLDuration cfg_1s = 10000000000"
  by (simp_all add: cfg_1s_def LeaderElectionTTLDuration_def wrap64_def)

lemma Itoa_small [simp]: "Itoa 1 = ''1''" "Itoa 2 = ''2''" "Itoa 3 = ''3''"
  by (simp_all add: Itoa_def nat_digits.simps digit_char_def)

lemma Atoi_examples [simp]: "Atoi ''2'' = Some 2" "Atoi ''two'' = None" "Atoi ''1'' = Some 1"
  "Atoi ''3'' = Some 3"
  "Atoi ''1000'' = Some 1000" "Atoi ''3001'' = Some 3001"
  by (simp_all add: Atoi_def parse_digits_def is_digit_def digit_value_def)

section \<open>Properties of the detector\<close>

text \<open>
  C1. The comparison against each threshold is strict. Let \<open>N\<close> be the base interval,
  positive and with \<open>3 * N + 1\<close> within \<^verbatim>\<open>int64\<close>. For a conversation whose
  current level reads 0, when the read and the appends succeed and the event renders as
  JSON: a wait of exactly \<open>N\<close> produces no event and \<open>N + 1\<close> the level-1 event; a
  wait of exactly \<open>2 * N\<close> still produces the level-1 event and \<open>2 * N + 1\<close> the
  level-2 event; a wait of exactly \<open>3 * N\<close> still produces the level-2 event and
  \<open>3 * N + 1\<close> the level-3 event. The same holds for the notifications of the phase 1
  detector, which renders nothing.
\<close>

theorem strict_threshold_boundary:
  assumes "0 < TimeoutIntervalMS cfg" and "3 * TimeoutIntervalMS cfg < max_int64"
    and "currentLevel_of (notification_states r c) = 0"
    and "\<not> fails e (HGET c)"
    and "\<forall>lvl st. \<not> fails e (XADD (event_values e c lvl st))"
    and "\<forall>lvl st. now - (3 * TimeoutIntervalMS cfg + 1) \<le> st \<and> st \<le> now \<longrightarrow>
           json_Marshal e (notification_of e c lvl st) = NoError"
  shows
    "timeout_events (processTimeoutDetection cfg e c (now - TimeoutIntervalMS cfg) now r)
       = timeout_events r
     \<and> timeout_events (processTimeoutDetection cfg e c (now - (TimeoutIntervalMS cfg + 1)) now r)
       = timeout_events r @ [event_values e c 1 (now - (TimeoutIntervalMS cfg + 1))]
     \<and> timeout_events (processTimeoutDetection cfg e c (now - 2 * TimeoutIntervalMS cfg) now r)
       = timeout_events r @ [event_values e c 1 (now - 2 * TimeoutIntervalMS cfg)]
     \<and> timeout_events (processTimeoutDetection cfg e c (now - (2 * TimeoutIntervalMS cfg + 1)) now r)
       = timeout_events r @ [event_values e c 2 (now - (2 * TimeoutIntervalMS cfg + 1))]
     \<and> timeout_events (processTimeoutDetection cfg e c (now - 3 * TimeoutIntervalMS cfg) now r)
       = timeout_events r @ [event_values e c 2 (now - 3 * TimeoutIntervalMS cfg)]
     \<and> timeout_events (processTimeoutDetection cfg e c (now - (3 * TimeoutIntervalMS cfg + 1)) now r)
       = timeout_events r @ [event_values e c 3 (now - (3 * TimeoutIntervalMS cfg + 1))]
     \<and> notifications (fst (processConversationTimeout cfg e c (now - TimeoutIntervalMS cfg) now (le, r)))
       = notifications le
     \<and> notifications (fst (processConversationTimeout cfg e c (now - (TimeoutIntervalMS cfg + 1)) now (le, r)))
       = notifications le @ [notification_of e c 1 (now - (TimeoutIntervalMS cfg + 1))]
     \<and> notifications (fst (processConversationTimeout cfg e c (now - 2 * TimeoutIntervalMS cfg) now (le, r)))
       = notifications le @ [notification_of e c 1 (now - 2 * TimeoutIntervalMS cfg)]
     \<and> notifications (fst (processConversationTimeout cfg e c (now - (2 * TimeoutIntervalMS cfg + 1)) now (le, r)))
       = notifications le @ [notification_of e c 2 (now - (2 * TimeoutIntervalMS cfg + 1))]
     \<and> notifications (fst (processConversationTimeout cfg e c (now - 3 * TimeoutIntervalMS cfg) now (le, r)))
       = notifications le @ [notification_of e c 2 (now - 3 * TimeoutIntervalMS cfg)]
     \<and> notifications (fst (processConversationTimeout cfg e c (now - (3 * TimeoutIntervalMS cfg + 1)) now (le, r)))
       = notifications le @ [notification_of e c 3 (now - (3 * TimeoutIntervalMS cfg + 1))]"
proof -
  note b = due_at_boundary [OF assms(1,2)]
  have j: "json_Marshal e (notification_of e c lvl st) = NoError"
    if "now - (3 * TimeoutIntervalMS cfg + 1) \<le> st" "st \<le> now" for lvl st
    using assms(6) that by blast
  have js: "json_Marshal e (notification_of e c lvl (now - (TimeoutIntervalMS cfg + 1))) = NoError"
    "json_Marshal e (notification_of e c lvl (now - 2 * TimeoutIntervalMS cfg)) = NoError"
    "json_Marshal e (notification_of e c lvl (now - (2 * TimeoutIntervalMS cfg + 1))) = NoError"
    "json_Marshal e (notification_of e c lvl (now - 3 * TimeoutIntervalMS cfg)) = NoError"
    "json_Marshal e (notification_of e c lvl (now - (3 * TimeoutIntervalMS cfg + 1))) = NoError"
    for lvl
    using assms(1) by (simp_all add: j)
  show ?thesis
    using assms(3,4,5)
    by (simp add: pTD_events pCT_notifications published_def notified_def b js)
qed

theorem strict_threshold_boundary_witness:
  "0 < TimeoutIntervalMS cfg_1s \<and> 3 * TimeoutIntervalMS cfg_1s < max_int64
   \<and> currentLevel_of (notification_states store_idle ''conv_9'') = 0
   \<and> json_Marshal env_ok (notification_of env_ok ''conv_9'' 3 1999) = NoError
   \<and> timeout_events (processTimeoutDetection cfg_1s env_ok ''conv_9'' 4000 5000 store_idle) = []
   \<and> timeout_events (processTimeoutDetection cfg_1s env_ok ''conv_9'' 3999 5000 store_idle)
     = [\<lparr>conversation_id = ''conv_9'', level = 1, agent_message_time = 3999,
         detected_at = 5001, attempt = 1\<rparr>]
   \<and> timeout_events (processTimeoutDetection cfg_1s env_ok ''conv_9'' 3000 5000 store_idle)
     = [\<lparr>conversation_id = ''conv_9'', level = 1, agent_message_time = 3000,
         detected_at = 5001, attempt = 1\<rparr>]
   \<and> timeout_events (processTimeoutDetection cfg_1s env_ok ''conv_9'' 2999 5000 store_idle)
     = [\<lparr>conversation_id = ''conv_9'', level = 2, agent_message_time = 2999,
         detected_at = 5001, attempt = 1\<rparr>]
   \<and> timeout_events (processTimeoutDetection cfg_1s env_ok ''conv_9'' 2000 5000 store_idle)
     = [\<lparr>conversation_id = ''conv_9'', level = 2, agent_message_time = 2000,
         detected_at = 5001, attempt = 1\<rparr>]
   \<and> timeout_events (processTimeoutDetection cfg_1s env_ok ''conv_9'' 1999 5000 store_idle)
     = [\<lparr>conversation_id = ''conv_9'', level = 3, agent_message_time = 1999,
         detected_at = 5001, attempt = 1\<rparr>]
   \<and> notifications (fst (processConversationTimeout cfg_1s env_ok ''conv_9'' 4000 5000
                          (le_leader, store_idle))) = []
   \<and> map Level (notifications (fst (processConversationTimeout cfg_1s env_ok ''conv_9'' 3999 5000
                          (le_leader, store_idle)))) = [1]"
proof -
  have h1: "0 < TimeoutIntervalMS cfg_1s" and h2: "3 * TimeoutIntervalMS cfg_1s < max_int64"
    by (simp_all add: max_int64_def)
  have h3: "currentLevel_of (notification_states store_idle ''conv_9'') = 0"
    by (simp add: store_idle_def currentLevel_of_def)
  have h4: "\<not> fails env_ok (HGET ''conv_9'')"
    and h5: "\<forall>lvl st. \<not> fails env_ok (XADD (event_values env_ok ''conv_9'' lvl st))"
    and h6: "\<forall>lvl st. 5000 - (3 * TimeoutIntervalMS cfg_1s + 1) \<le> st \<and> st \<le> 5000 \<longrightarrow>
           json_Marshal env_ok (notification_of env_ok ''conv_9'' lvl st) = NoError"
    by simp_all
  have h7: "json_Marshal env_ok (notification_of env_ok ''conv_9'' 3 1999) = NoError"
    by simp
  have ev: "timeout_events store_idle = []" and nt: "notifications le_leader = []"
    by (simp_all add: store_idle_def le_leader_def)
  from strict_threshold_boundary [OF h1 h2 h3 h4 h5 h6, of le_leader] h1 h2 h3 h7
  show ?thesis
    by (simp add: ev nt event_values_def notification_of_def UnixMilli_def)
qed

text \<open>
  C2. Every entry that a pass of the detector appends to the stream carries a level in
  \<open>{1, 2, 3}\<close>, and the wait (the \<open>now\<close> of the pass minus the basis timestamp of
  the entry) strictly exceeds level times the base interval; so does the wait measured
  at \<^verbatim>\<open>detected_at\<close> whenever the clock read at publishing is not behind the clock
  read at the start of the pass. The assumptions say that \<open>3 * N\<close> and \<open>now\<close> are
  \<^verbatim>\<open>int64\<close> values. The same holds for the notifications of a phase 1 pass.
\<close>

theorem published_events_are_due:
  assumes "3 * TimeoutIntervalMS cfg \<le> max_int64" and "UnixMilli t \<le> max_int64"
  shows
    "timeout_events (snd (detectAndPublishTimeouts cfg e t (m, r)))
       = timeout_events r @ appended r (snd (detectAndPublishTimeouts cfg e t (m, r)))
     \<and> (\<forall>v \<in> set (appended r (snd (detectAndPublishTimeouts cfg e t (m, r)))).
           level v \<in> {1, 2, 3}
           \<and> level v * TimeoutIntervalMS cfg < UnixMilli t - agent_message_time v
           \<and> (t \<le> time_Now e (conversation_id v) \<longrightarrow>
                level v * TimeoutIntervalMS cfg < detected_at v - agent_message_time v))
     \<and> notifications (fst (checkTimeouts cfg e t (le, r)))
       = notifications le @ notified_since le (fst (checkTimeouts cfg e t (le, r)))
     \<and> (\<forall>n \<in> set (notified_since le (fst (checkTimeouts cfg e t (le, r)))).
           Level n \<in> {1, 2, 3}
           \<and> Level n * TimeoutIntervalMS cfg < UnixMilli t - UnixMilli (AgentMessageTime n))"
proof -
  let ?now = "UnixMilli t"
  let ?scan = "filter (in_range 0 (float64 ?now)) (waiting_conversations r)"
  have rng: "0 \<le> ?now \<and> min_int64 \<le> snd cv \<and> snd cv \<le> max_int64"
    if "cv \<in> set (starts ?scan)" for cv
  proof -
    from that obtain x where x: "x \<in> set ?scan" and cv: "cv = (fst x, int64 (snd x))"
      by (auto simp: starts_def)
    from x have "0 \<le> float64 ?now" by (auto simp: in_range_def)
    with float64_neg [of ?now] have "0 \<le> ?now" by linarith
    with int64_range [of "snd x"] show ?thesis by (simp add: cv)
  qed
  from detect_appends [of cfg e t "(m, r)"] obtain new where
    new: "timeout_events (snd (detectAndPublishTimeouts cfg e t (m, r))) = timeout_events r @ new"
    and sub: "set new \<subseteq> (\<Union>cv \<in> set (starts ?scan). \<Union>stored. set (published cfg e ?now stored cv))"
    by auto
  have app: "appended r (snd (detectAndPublishTimeouts cfg e t (m, r))) = new"
    by (simp add: appended_def new)
  have due: "level v \<in> {1, 2, 3}
           \<and> level v * TimeoutIntervalMS cfg < ?now - agent_message_time v
           \<and> (t \<le> time_Now e (conversation_id v) \<longrightarrow>
                level v * TimeoutIntervalMS cfg < detected_at v - agent_message_time v)"
    if "v \<in> set new" for v
  proof -
    from that sub obtain cv stored where cv: "cv \<in> set (starts ?scan)"
      and v: "v \<in> set (published cfg e ?now stored cv)" by blast
    from rng [OF cv] have r0: "0 \<le> ?now" and r1: "min_int64 \<le> snd cv" and r2: "snd cv \<le> max_int64"
      by simp_all
    from published_due [OF assms(1) r0 assms(2) r1 r2 v] have 1: "level v \<in> {1, 2, 3}"
      and 2: "level v * TimeoutIntervalMS cfg < ?now - agent_message_time v"
      and 3: "detected_at v = UnixMilli (time_Now e (conversation_id v))"
      by simp_all
    have "level v * TimeoutIntervalMS cfg < detected_at v - agent_message_time v"
      if "t \<le> time_Now e (conversation_id v)"
      using UnixMilli_mono [OF that] 2 3 by simp
    with 1 2 show ?thesis by simp
  qed
  from checkTimeouts_appends [of cfg e t "(le, r)"] obtain new1 where
    new1: "notifications (fst (checkTimeouts cfg e t (le, r))) = notifications le @ new1"
    and sub1: "set new1 \<subseteq> (\<Union>cv \<in> set (starts ?scan). \<Union>stored. set (notified cfg e ?now stored cv))"
    by auto
  have app1: "notified_since le (fst (checkTimeouts cfg e t (le, r))) = new1"
    by (simp add: notified_since_def new1)
  have due1: "Level n \<in> {1, 2, 3}
           \<and> Level n * TimeoutIntervalMS cfg < ?now - UnixMilli (AgentMessageTime n)"
    if "n \<in> set new1" for n
  proof -
    from that sub1 obtain cv stored where cv: "cv \<in> set (starts ?scan)"
      and n: "n \<in> set (notified cfg e ?now stored cv)" by blast
    from rng [OF cv] have r0: "0 \<le> ?now" and r1: "min_int64 \<le> snd cv" and r2: "snd cv \<le> max_int64"
      by simp_all
    from notified_due [OF assms(1) r0 assms(2) r1 r2 n] show ?thesis by simp
  qed
  show ?thesis
    unfolding app app1 using new new1 due due1 by blast
qed

theorem published_events_are_due_witness:
  "3 * TimeoutIntervalMS cfg_1s \<le> max_int64 \<and> UnixMilli 5000000000 \<le> max_int64
   \<and> appended store_pass (snd (detectAndPublishTimeouts cfg_1s env_ok 5000000000 (metrics_zero, store_pass)))
     = [\<lparr>conversation_id = ''conv_a'', level = 3, agent_message_time = 1999,
         detected_at = 5001, attempt = 1\<rparr>,
        \<lparr>conversation_id = ''conv_b'', level = 1, agent_message_time = 3999,
         detected_at = 5001, attempt = 1\<rparr>]
   \<and> level (hd (appended store_pass
          (snd (detectAndPublishTimeouts cfg_1s env_ok 5000000000 (metrics_zero, store_pass)))))
       \<in> {1, 2, 3}
   \<and> level (hd (appended store_pass
          (snd (detectAndPublishTimeouts cfg_1s env_ok 5000000000 (metrics_zero, store_pass)))))
         * TimeoutIntervalMS cfg_1s
       < UnixMilli 5000000000
         - agent_message_time (hd (appended store_pass
             (snd (detectAndPublishTimeouts cfg_1s env_ok 5000000000 (metrics_zero, store_pass)))))
   \<and> level (hd (appended store_pass
          (snd (detectAndPublishTimeouts cfg_1s env_ok 5000000000 (metrics_zero, store_pass)))))
         * TimeoutIntervalMS cfg_1s
       < detected_at (hd (appended store_pass
             (snd (detectAndPublishTimeouts cfg_1s env_ok 5000000000 (metrics_zero, store_pass)))))
         - agent_message_time (hd (appended store_pass
             (snd (detectAndPublishTimeouts cfg_1s env_ok 5000000000 (metrics_zero, store_pass)))))"
proof -
  let ?new = "appended store_pass
       (snd (detectAndPublishTimeouts cfg_1s env_ok 5000000000 (metrics_zero, store_pass)))"
  have h1: "3 * TimeoutIntervalMS cfg_1s \<le> max_int64" and h2: "UnixMilli 5000000000 \<le> max_int64"
    by (simp_all add: max_int64_def UnixMilli_def)
  have run: "?new
     = [\<lparr>conversation_id = ''conv_a'', level = 3, agent_message_time = 1999,
         detected_at = 5001, attempt = 1\<rparr>,
        \<lparr>conversation_id = ''conv_b'', level = 1, agent_message_time = 3999,
         detected_at = 5001, attempt = 1\<rparr>]"
    by (simp add: appended_def detect_eq UnixMilli_def in_range_def store_pass_def pTD_eq
          newLevel_of_def wrap64_def currentLevel_of_def event_values_def HSet_def issue_def
          float64_exact int64_def min_int64_def max_int64_def)
  then have mem: "hd ?new \<in> set ?new"
    by simp
  have clock: "(5000000000::int) \<le> time_Now env_ok (conversation_id (hd ?new))"
    by simp
  from published_events_are_due [OF h1 h2, of env_ok metrics_zero store_pass le_leader] mem clock
  have "level (hd ?new) \<in> {1, 2, 3}"
    and "level (hd ?new) * TimeoutIntervalMS cfg_1s
           < UnixMilli 5000000000 - agent_message_time (hd ?new)"
    and "level (hd ?new) * TimeoutIntervalMS cfg_1s
           < detected_at (hd ?new) - agent_message_time (hd ?new)"
    by blast+
  with h1 h2 run show ?thesis by blast
qed

text \<open>
  C3, as the specification states it, fails: the scan of a pass asks for the scores from
  0 to \<open>now\<close>, so a conversation whose basis timestamp lies before the epoch is never
  looked at. Here \<open>before_epoch\<close> has no level stored and has waited 5005 ms with
  an interval of 1000 ms, and the pass publishes the event of \<open>fresh\<close> alone (for
  \<open>at_cutoff\<close> level 3 is already stored); the level of \<open>before_epoch\<close> is not
  even read.
\<close>

theorem negative_score_is_never_scanned:
  "(''before_epoch'', - 5) \<in> set (waiting_conversations store_aged)
   \<and> currentLevel_of (notification_states store_aged ''before_epoch'') = 0
   \<and> 3 * TimeoutIntervalMS cfg_1s < UnixMilli 5000000000 - (- 5)
   \<and> appended store_aged
        (snd (detectAndPublishTimeouts cfg_1s env_ok 5000000000 (metrics_zero, store_aged)))
     = [\<lparr>conversation_id = ''fresh'', level = 3, agent_message_time = 1500,
         detected_at = 5001, attempt = 1\<rparr>]
   \<and> calls (snd (detectAndPublishTimeouts cfg_1s env_ok 5000000000 (metrics_zero, store_aged)))
     = [ZRANGEBYSCORE 0 5000, HGET ''at_cutoff'', HGET ''fresh'',
        XADD \<lparr>conversation_id = ''fresh'', level = 3, agent_message_time = 1500,
              detected_at = 5001, attempt = 1\<rparr>,
        HSET ''fresh'' ''3'']
   \<and> map TimeoutEvent.ConversationID
        (notified_since le_leader (fst (checkTimeouts cfg_1s env_ok 5000000000 (le_leader, store_aged))))
     = [''fresh'']
   \<and> calls (snd (checkTimeouts cfg_1s env_ok 5000000000 (le_leader, store_aged)))
     = [ZRANGEBYSCORE 0 5000, HGET ''at_cutoff'', HGET ''fresh'', HSET ''fresh'' ''3'']"
proof -
  have "appended store_aged
        (snd (detectAndPublishTimeouts cfg_1s env_ok 5000000000 (metrics_zero, store_aged)))
     = [\<lparr>conversation_id = ''fresh'', level = 3, agent_message_time = 1500,
         detected_at = 5001, attempt = 1\<rparr>]
   \<and> calls (snd (detectAndPublishTimeouts cfg_1s env_ok 5000000000 (metrics_zero, store_aged)))
     = [ZRANGEBYSCORE 0 5000, HGET ''at_cutoff'', HGET ''fresh'',
        XADD \<lparr>conversation_id = ''fresh'', level = 3, agent_message_time = 1500,
              detected_at = 5001, attempt = 1\<rparr>,
        HSET ''fresh'' ''3'']"
    by (simp add: appended_def detect_eq UnixMilli_def in_range_def store_aged_def pTD_eq
          newLevel_of_def wrap64_def currentLevel_of_def event_values_def HSet_def issue_def
          float64_exact int64_def min_int64_def max_int64_def)
  moreover
  have "map TimeoutEvent.ConversationID
        (notified_since le_leader (fst (checkTimeouts cfg_1s env_ok 5000000000 (le_leader, store_aged))))
     = [''fresh'']
   \<and> calls (snd (checkTimeouts cfg_1s env_ok 5000000000 (le_leader, store_aged)))
     = [ZRANGEBYSCORE 0 5000, HGET ''at_cutoff'', HGET ''fresh'', HSET ''fresh'' ''3'']"
    by (simp add: notified_since_def checkTimeouts_eq UnixMilli_def in_range_def store_aged_def
          le_leader_def pCT_eq newLevel_of_def wrap64_def currentLevel_of_def notification_of_def
          issue_def float64_exact int64_def min_int64_def max_int64_def)
  moreover
  have "(''before_epoch'', - 5) \<in> set (waiting_conversations store_aged)
   \<and> currentLevel_of (notification_states store_aged ''before_epoch'') = 0
   \<and> 3 * TimeoutIntervalMS cfg_1s < UnixMilli 5000000000 - (- 5)"
    by (simp add: store_aged_def currentLevel_of_def UnixMilli_def)
  ultimately show ?thesis by blast
qed

text \<open>
  C3, amended. A conversation that the scan returns (its basis timestamp lies between 0
  and \<open>now\<close>), whose current level reads 0 and whose wait exceeds three times the
  (nonnegative) base interval, gets exactly one event in one pass, of level 3, and no
  event of level 1 or 2, when the scan, the read of its level and the append succeed and
  the event renders as JSON. \<open>now\<close> is at most \<open>2 ^ 53\<close>, so that the bound of the
  scan is exact. Likewise for the notifications of a phase 1 pass.
\<close>

theorem overdue_conversation_gets_single_level3_event:
  assumes "0 \<le> TimeoutIntervalMS cfg" and "UnixMilli t \<le> 2 ^ 53"
    and "distinct (map fst (waiting_conversations r))"
    and "(c, s) \<in> set (waiting_conversations r)" and "0 \<le> s"
    and "currentLevel_of (notification_states r c) = 0"
    and "3 * TimeoutIntervalMS cfg < UnixMilli t - s"
    and "\<not> fails e (ZRANGEBYSCORE 0 (UnixMilli t))" and "\<not> fails e (HGET c)"
    and "\<not> fails e (XADD (event_values e c 3 s))"
    and "json_Marshal e (notification_of e c 3 s) = NoError"
  shows
    "filter (\<lambda>v. conversation_id v = c) (appended r (snd (detectAndPublishTimeouts cfg e t (m, r))))
       = [event_values e c 3 s]
     \<and> filter (\<lambda>n. TimeoutEvent.ConversationID n = c)
         (notified_since le (fst (checkTimeouts cfg e t (le, r))))
       = [notification_of e c 3 s]"
proof -
  let ?now = "UnixMilli t"
  let ?N = "TimeoutIntervalMS cfg"
  let ?scan = "filter (in_range 0 (float64 ?now)) (waiting_conversations r)"
  have le: "s \<le> ?now" using assms(1,7) by simp
  with assms(2,5) have "\<bar>?now\<bar> \<le> 2 ^ 53" by simp
  then have fl: "float64 ?now = ?now" by (rule float64_exact)
  have i64: "int64 s = s"
    using assms(2,5) le by (intro int64_small) simp_all
  have "(c, s) \<in> set ?scan"
    using assms(4,5) le by (simp add: in_range_def fl)
  from starts_member [OF this] have mem: "(c, s) \<in> set (starts ?scan)"
    by (simp add: i64)
  have "distinct (map fst ?scan)"
    using assms(3) by (rule distinct_map_filter)
  then have d: "distinct (map fst (starts ?scan))"
    by simp
  have big: "(2::int) ^ 53 \<le> max_int64"
    by (simp add: max_int64_def)
  have "min_int64 \<le> ?now - s" "?now - s \<le> max_int64"
    using assms(2,5) le big by (simp_all add: min_int64_def)
  then have w: "wrap64 (?now - s) = ?now - s" by (rule wrap64_id)
  have "min_int64 \<le> 3 * ?N" "3 * ?N \<le> max_int64"
    using assms(1,2,5,7) big by (simp_all add: min_int64_def)
  then have lvl: "newLevel_of ?N (?now - s) 0 = Some 3"
    using assms(7) by (simp add: newLevel_of_nowrap)
  have pub: "published cfg e ?now (notification_states r c) (c, s) = [event_values e c 3 s]"
    using assms(6,9,10,11) by (simp add: published_def w lvl)
  have ntf: "notified cfg e ?now (notification_states r c) (c, s) = [notification_of e c 3 s]"
    using assms(6,9) by (simp add: notified_def w lvl)
  have "filter (\<lambda>v. conversation_id v = c) (appended r (snd (detectAndPublishTimeouts cfg e t (m, r))))
       = published cfg e ?now (notification_states r c) (c, s)"
    unfolding detect_appended [OF assms(8,3)]
    using filter_concat_member [OF d mem, of cfg e ?now "\<lambda>cv. notification_states r (fst cv)"]
    by simp
  moreover have "filter (\<lambda>n. TimeoutEvent.ConversationID n = c)
         (notified_since le (fst (checkTimeouts cfg e t (le, r))))
       = notified cfg e ?now (notification_states r c) (c, s)"
    unfolding checkTimeouts_notified [OF assms(8,3)]
    using filter_concat1_member [OF d mem, of cfg e ?now "\<lambda>cv. notification_states r (fst cv)"]
    by simp
  ultimately show ?thesis by (simp add: pub ntf)
qed

theorem overdue_conversation_gets_single_level3_event_witness:
  "0 \<le> TimeoutIntervalMS cfg_1s
   \<and> (''conv_a'', 1999) \<in> set (waiting_conversations store_pass)
   \<and> currentLevel_of (notification_states store_pass ''conv_a'') = 0
   \<and> 3 * TimeoutIntervalMS cfg_1s < UnixMilli 5000000000 - 1999
   \<and> json_Marshal env_ok (notification_of env_ok ''conv_a'' 3 1999) = NoError
   \<and> filter (\<lambda>v. conversation_id v = ''conv_a'')
        (appended store_pass
           (snd (detectAndPublishTimeouts cfg_1s env_ok 5000000000 (metrics_zero, store_pass))))
     = [\<lparr>conversation_id = ''conv_a'', level = 3, agent_message_time = 1999,
         detected_at = 5001, attempt = 1\<rparr>]
   \<and> map Level (filter (\<lambda>n. TimeoutEvent.ConversationID n = ''conv_a'')
        (notified_since le_leader (fst (checkTimeouts cfg_1s env_ok 5000000000 (le_leader, store_pass)))))
     = [3]"
proof -
  have h1: "0 \<le> TimeoutIntervalMS cfg_1s" and h2: "UnixMilli 5000000000 \<le> 2 ^ 53"
    and h3: "distinct (map fst (waiting_conversations store_pass))"
    and h4: "(''conv_a'', 1999) \<in> set (waiting_conversations store_pass)"
    and h5: "(0::int) \<le> 1999"
    and h6: "currentLevel_of (notification_states store_pass ''conv_a'') = 0"
    and h7: "3 * TimeoutIntervalMS cfg_1s < UnixMilli 5000000000 - 1999"
    and h8: "\<not> fails env_ok (ZRANGEBYSCORE 0 (UnixMilli 5000000000))"
    and h9: "\<not> fails env_ok (HGET ''conv_a'')"
    and h10: "\<not> fails env_ok (XADD (event_values env_ok ''conv_a'' 3 1999))"
    and h11: "json_Marshal env_ok (notification_of env_ok ''conv_a'' 3 1999) = NoError"
    by (simp_all add: UnixMilli_def store_pass_def currentLevel_of_def)
  from overdue_conversation_gets_single_level3_event
         [OF h1 h2 h3 h4 h5 h6 h7 h8 h9 h10 h11, of metrics_zero le_leader]
       h1 h4 h6 h7 h11
  show ?thesis
    by (simp add: event_values_def notification_of_def UnixMilli_def)
qed

text \<open>
  C7. When a level \<open>nl\<close> is due for a conversation: the detector sends
  \<^verbatim>\<open>XADD\<close> before \<^verbatim>\<open>HSET\<close>, and \<^verbatim>\<open>HSET\<close> only after the append
  succeeded; when publishing fails, because the event does not render as JSON (then
  nothing is appended at all) or because the append fails, the store is unchanged (apart
  from the record of the commands), so that processing the conversation again publishes
  the event; and in a pass every scanned conversation gets the entries and the state
  that processing it alone would give, whatever failed for the others.
\<close>

theorem publish_before_state_update:
  assumes "newLevel_of (TimeoutIntervalMS cfg) (wrap64 (now - s))
             (currentLevel_of (notification_states r c)) = Some nl"
    and "\<not> fails e (HGET c)"
  shows
    "(json_Marshal e (notification_of e c nl s) = NoError
        \<and> \<not> fails e (XADD (event_values e c nl s)) \<longrightarrow>
        calls (processTimeoutDetection cfg e c s now r)
          = calls r @ [HGET c, XADD (event_values e c nl s), HSET c (Itoa nl)]
        \<and> timeout_events (processTimeoutDetection cfg e c s now r)
          = timeout_events r @ [event_values e c nl s]
        \<and> notification_states (processTimeoutDetection cfg e c s now r)
          = (if fails e (HSET c (Itoa nl)) then notification_states r
             else (notification_states r)(c \<mapsto> Itoa nl)))
     \<and> (json_Marshal e (notification_of e c nl s) \<noteq> NoError \<longrightarrow>
        processTimeoutDetection cfg e c s now r = r\<lparr>calls := calls r @ [HGET c]\<rparr>)
     \<and> (json_Marshal e (notification_of e c nl s) = NoError
        \<and> fails e (XADD (event_values e c nl s)) \<longrightarrow>
        processTimeoutDetection cfg e c s now r
          = r\<lparr>calls := calls r @ [HGET c, XADD (event_values e c nl s)]\<rparr>)
     \<and> (json_Marshal e (notification_of e c nl s) \<noteq> NoError
        \<or> fails e (XADD (event_values e c nl s)) \<longrightarrow>
        (\<forall>e2. \<not> fails e2 (HGET c) \<and> json_Marshal e2 (notification_of e2 c nl s) = NoError
               \<and> \<not> fails e2 (XADD (event_values e2 c nl s)) \<longrightarrow>
              timeout_events (processTimeoutDetection cfg e2 c s now
                                (processTimeoutDetection cfg e c s now r))
                = timeout_events r @ [event_values e2 c nl s]))
     \<and> (\<not> fails e (ZRANGEBYSCORE 0 (UnixMilli t)) \<and> distinct (map fst (waiting_conversations r))
         \<and> (d, s') \<in> set (waiting_conversations r) \<and> 0 \<le> s' \<and> s' \<le> float64 (UnixMilli t) \<longrightarrow>
        filter (\<lambda>v. conversation_id v = d)
            (appended r (snd (detectAndPublishTimeouts cfg e t (m, r))))
          = appended r (processTimeoutDetection cfg e d (int64 s') (UnixMilli t) r)
        \<and> notification_states (snd (detectAndPublishTimeouts cfg e t (m, r))) d
          = notification_states (processTimeoutDetection cfg e d (int64 s') (UnixMilli t) r) d)"
proof (intro conjI impI allI)
  assume ok: "json_Marshal e (notification_of e c nl s) = NoError
        \<and> \<not> fails e (XADD (event_values e c nl s))"
  show "calls (processTimeoutDetection cfg e c s now r)
          = calls r @ [HGET c, XADD (event_values e c nl s), HSET c (Itoa nl)]"
    using assms ok by (simp add: pTD_eq HSet_def issue_def)
  show "timeout_events (processTimeoutDetection cfg e c s now r)
          = timeout_events r @ [event_values e c nl s]"
    using assms ok by (simp add: pTD_eq HSet_def issue_def)
  show "notification_states (processTimeoutDetection cfg e c s now r)
          = (if fails e (HSET c (Itoa nl)) then notification_states r
             else (notification_states r)(c \<mapsto> Itoa nl))"
    using assms ok by (simp add: pTD_eq HSet_def issue_def)
next
  assume "json_Marshal e (notification_of e c nl s) \<noteq> NoError"
  then show "processTimeoutDetection cfg e c s now r = r\<lparr>calls := calls r @ [HGET c]\<rparr>"
    using assms by (simp add: pTD_eq issue_def)
next
  assume "json_Marshal e (notification_of e c nl s) = NoError
        \<and> fails e (XADD (event_values e c nl s))"
  then show "processTimeoutDetection cfg e c s now r
          = r\<lparr>calls := calls r @ [HGET c, XADD (event_values e c nl s)]\<rparr>"
    using assms by (simp add: pTD_eq issue_def)
next
  fix e2
  assume bad: "json_Marshal e (notification_of e c nl s) \<noteq> NoError
        \<or> fails e (XADD (event_values e c nl s))"
  assume again: "\<not> fails e2 (HGET c) \<and> json_Marshal e2 (notification_of e2 c nl s) = NoError
               \<and> \<not> fails e2 (XADD (event_values e2 c nl s))"
  from bad assms have same: "timeout_events (processTimeoutDetection cfg e c s now r) = timeout_events r"
    and state: "notification_states (processTimeoutDetection cfg e c s now r) = notification_states r"
    by (auto simp: pTD_eq issue_def)
  have "timeout_events (processTimeoutDetection cfg e2 c s now
                                (processTimeoutDetection cfg e c s now r))
        = timeout_events (processTimeoutDetection cfg e c s now r)
            @ published cfg e2 now (notification_states (processTimeoutDetection cfg e c s now r) c) (c, s)"
    by (rule pTD_events)
  also have "\<dots> = timeout_events r @ [event_values e2 c nl s]"
    unfolding same state using again assms(1) by (simp add: published_def)
  finally show "timeout_events (processTimeoutDetection cfg e2 c s now
                                (processTimeoutDetection cfg e c s now r))
                = timeout_events r @ [event_values e2 c nl s]" .
next
  assume h: "\<not> fails e (ZRANGEBYSCORE 0 (UnixMilli t)) \<and> distinct (map fst (waiting_conversations r))
         \<and> (d, s') \<in> set (waiting_conversations r) \<and> 0 \<le> s' \<and> s' \<le> float64 (UnixMilli t)"
  then show "filter (\<lambda>v. conversation_id v = d)
            (appended r (snd (detectAndPublishTimeouts cfg e t (m, r))))
          = appended r (processTimeoutDetection cfg e d (int64 s') (UnixMilli t) r)"
    by (intro detect_member) simp_all
  from h show "notification_states (snd (detectAndPublishTimeouts cfg e t (m, r))) d
          = notification_states (processTimeoutDetection cfg e d (int64 s') (UnixMilli t) r) d"
    by (intro detect_member) simp_all
qed

theorem publish_before_state_update_witness:
  "newLevel_of (TimeoutIntervalMS cfg_1s) (wrap64 (5000 - 1999))
       (currentLevel_of (notification_states store_pass ''conv_a'')) = Some 3
   \<and> fails env_xadd_down (XADD (event_values env_xadd_down ''conv_a'' 3 1999))
   \<and> processTimeoutDetection cfg_1s env_xadd_down ''conv_a'' 1999 5000 store_pass
     = store_pass\<lparr>calls := [HGET ''conv_a'', XADD (event_values env_xadd_down ''conv_a'' 3 1999)]\<rparr>
   \<and> timeout_events (processTimeoutDetection cfg_1s env_ok ''conv_a'' 1999 5000
         (processTimeoutDetection cfg_1s env_xadd_down ''conv_a'' 1999 5000 store_pass))
     = [\<lparr>conversation_id = ''conv_a'', level = 3, agent_message_time = 1999,
         detected_at = 5001, attempt = 1\<rparr>]
   \<and> calls (processTimeoutDetection cfg_1s env_ok ''conv_a'' 1999 5000 store_pass)
     = [HGET ''conv_a'', XADD (event_values env_ok ''conv_a'' 3 1999), HSET ''conv_a'' ''3'']
   \<and> notification_states (processTimeoutDetection cfg_1s env_ok ''conv_a'' 1999 5000 store_pass) ''conv_a''
     = Some ''3''
   \<and> newLevel_of (TimeoutIntervalMS cfg_1s) (wrap64 (300000000000000 - 299999999998999))
       (currentLevel_of (notification_states store_empty ''conv_a'')) = Some 1
   \<and> json_Marshal env_ok (notification_of env_ok ''conv_a'' 1 299999999998999) = OtherError
   \<and> processTimeoutDetection cfg_1s env_ok ''conv_a'' 299999999998999 300000000000000 store_empty
     = store_empty\<lparr>calls := [HGET ''conv_a'']\<rparr>
   \<and> appended store_pass
        (snd (detectAndPublishTimeouts cfg_1s env_xadd_down 5000000000 (metrics_zero, store_pass)))
     = [\<lparr>conversation_id = ''conv_b'', level = 1, agent_message_time = 3999,
         detected_at = 5001, attempt = 1\<rparr>]
   \<and> filter (\<lambda>v. conversation_id v = ''conv_b'')
        (appended store_pass
          (snd (detectAndPublishTimeouts cfg_1s env_xadd_down 5000000000 (metrics_zero, store_pass))))
     = [\<lparr>conversation_id = ''conv_b'', level = 1, agent_message_time = 3999,
         detected_at = 5001, attempt = 1\<rparr>]
   \<and> notification_states
        (snd (detectAndPublishTimeouts cfg_1s env_xadd_down 5000000000 (metrics_zero, store_pass)))
        ''conv_b'' = Some ''1''
   \<and> notification_states
        (snd (detectAndPublishTimeouts cfg_1s env_xadd_down 5000000000 (metrics_zero, store_pass)))
        ''conv_a'' = None"
proof -
  have due: "newLevel_of (TimeoutIntervalMS cfg_1s) (wrap64 (5000 - 1999))
       (currentLevel_of (notification_states store_pass ''conv_a'')) = Some 3"
    by (simp add: newLevel_of_def wrap64_def currentLevel_of_def store_pass_def)
  have far: "newLevel_of (TimeoutIntervalMS cfg_1s) (wrap64 (300000000000000 - 299999999998999))
       (currentLevel_of (notification_states store_empty ''conv_a'')) = Some 1"
    by (simp add: newLevel_of_def wrap64_def currentLevel_of_def store_empty_def)
  have hget: "\<not> fails env_xadd_down (HGET ''conv_a'')" and hget': "\<not> fails env_ok (HGET ''conv_a'')"
    by simp_all
  have bad: "fails env_xadd_down (XADD (event_values env_xadd_down ''conv_a'' 3 1999))"
    by (simp add: event_values_def)
  have jbad: "json_Marshal env_xadd_down (notification_of env_xadd_down ''conv_a'' 3 1999) = NoError"
    by simp
  have ok: "json_Marshal env_ok (notification_of env_ok ''conv_a'' 3 1999) = NoError
       \<and> \<not> fails env_ok (XADD (event_values env_ok ''conv_a'' 3 1999))"
    and hset: "\<not> fails env_ok (HSET ''conv_a'' (Itoa 3))"
    by simp_all
  have unrendered: "json_Marshal env_ok (notification_of env_ok ''conv_a'' 1 299999999998999) = OtherError"
    by (simp add: json_Marshal_def MarshalJSON_def notification_of_def time_UnixMilli_def
          unix_year_0_def unix_year_10000_def)
  have retry: "\<not> fails env_ok (HGET ''conv_a'')
       \<and> json_Marshal env_ok (notification_of env_ok ''conv_a'' 3 1999) = NoError
       \<and> \<not> fails env_ok (XADD (event_values env_ok ''conv_a'' 3 1999))"
    by simp
  have pass: "\<not> fails env_xadd_down (ZRANGEBYSCORE 0 (UnixMilli 5000000000))
       \<and> distinct (map fst (waiting_conversations store_pass))
       \<and> (''conv_b'', 3999) \<in> set (waiting_conversations store_pass)
       \<and> (0::int) \<le> 3999 \<and> 3999 \<le> float64 (UnixMilli 5000000000)"
    by (simp add: store_pass_def UnixMilli_def float64_exact)
  have i64: "int64 3999 = 3999"
    by (simp add: int64_def min_int64_def max_int64_def)
  have alone: "appended store_pass
         (processTimeoutDetection cfg_1s env_xadd_down ''conv_b'' 3999 (UnixMilli 5000000000) store_pass)
       = [\<lparr>conversation_id = ''conv_b'', level = 1, agent_message_time = 3999,
           detected_at = 5001, attempt = 1\<rparr>]"
    and alone_state: "notification_states
         (processTimeoutDetection cfg_1s env_xadd_down ''conv_b'' 3999 (UnixMilli 5000000000) store_pass)
         ''conv_b'' = Some ''1''"
    by (simp_all add: appended_def UnixMilli_def store_pass_def pTD_eq newLevel_of_def wrap64_def
          currentLevel_of_def event_values_def HSet_def issue_def)
  have whole: "appended store_pass
        (snd (detectAndPublishTimeouts cfg_1s env_xadd_down 5000000000 (metrics_zero, store_pass)))
     = [\<lparr>conversation_id = ''conv_b'', level = 1, agent_message_time = 3999,
         detected_at = 5001, attempt = 1\<rparr>]"
    and state_a: "notification_states
        (snd (detectAndPublishTimeouts cfg_1s env_xadd_down 5000000000 (metrics_zero, store_pass)))
        ''conv_a'' = None"
    by (simp_all add: appended_def detect_eq UnixMilli_def in_range_def store_pass_def pTD_eq
          newLevel_of_def wrap64_def currentLevel_of_def event_values_def HSet_def issue_def
          float64_exact int64_def min_int64_def max_int64_def)
  have ev: "timeout_events store_pass = []" and cs: "calls store_pass = []"
    and st: "notification_states store_pass = [''conv_c'' \<mapsto> ''2'']"
    and cs0: "calls store_empty = []"
    by (simp_all add: store_pass_def store_empty_def)
  note failing = publish_before_state_update
      [where t = 5000000000 and d = "''conv_b''" and s' = 3999 and m = metrics_zero, OF due hget]
  note working = publish_before_state_update
      [where e = env_ok and t = 5000000000 and d = "''conv_b''" and s' = 3999 and m = metrics_zero,
       OF due hget']
  note unrenderable = publish_before_state_update
      [where e = env_ok and t = 5000000000 and d = "''conv_b''" and s' = 3999 and m = metrics_zero,
       OF far hget']
  from failing bad jbad retry pass
  have 1: "processTimeoutDetection cfg_1s env_xadd_down ''conv_a'' 1999 5000 store_pass
     = store_pass\<lparr>calls := calls store_pass @ [HGET ''conv_a'', XADD (event_values env_xadd_down ''conv_a'' 3 1999)]\<rparr>"
    and 2: "timeout_events (processTimeoutDetection cfg_1s env_ok ''conv_a'' 1999 5000
         (processTimeoutDetection cfg_1s env_xadd_down ''conv_a'' 1999 5000 store_pass))
     = timeout_events store_pass @ [event_values env_ok ''conv_a'' 3 1999]"
    and 3: "filter (\<lambda>v. conversation_id v = ''conv_b'')
        (appended store_pass
          (snd (detectAndPublishTimeouts cfg_1s env_xadd_down 5000000000 (metrics_zero, store_pass))))
       = appended store_pass
         (processTimeoutDetection cfg_1s env_xadd_down ''conv_b'' (int64 3999) (UnixMilli 5000000000) store_pass)"
    and 4: "notification_states
        (snd (detectAndPublishTimeouts cfg_1s env_xadd_down 5000000000 (metrics_zero, store_pass)))
        ''conv_b''
       = notification_states
         (processTimeoutDetection cfg_1s env_xadd_down ''conv_b'' (int64 3999) (UnixMilli 5000000000) store_pass)
         ''conv_b''"
    by blast+
  from working ok
  have 5: "calls (processTimeoutDetection cfg_1s env_ok ''conv_a'' 1999 5000 store_pass)
     = calls store_pass @ [HGET ''conv_a'', XADD (event_values env_ok ''conv_a'' 3 1999), HSET ''conv_a'' (Itoa 3)]"
    and 6: "notification_states (processTimeoutDetection cfg_1s env_ok ''conv_a'' 1999 5000 store_pass)
     = (if fails env_ok (HSET ''conv_a'' (Itoa 3)) then notification_states store_pass
        else (notification_states store_pass)(''conv_a'' \<mapsto> Itoa 3))"
    by blast+
  have ne: "json_Marshal env_ok (notification_of env_ok ''conv_a'' 1 299999999998999) \<noteq> NoError"
    by (simp add: unrendered)
  from unrenderable ne
  have 7: "processTimeoutDetection cfg_1s env_ok ''conv_a'' 299999999998999 300000000000000 store_empty
     = store_empty\<lparr>calls := calls store_empty @ [HGET ''conv_a'']\<rparr>"
    by blast
  have f2: "timeout_events (processTimeoutDetection cfg_1s env_ok ''conv_a'' 1999 5000
         (processTimeoutDetection cfg_1s env_xadd_down ''conv_a'' 1999 5000 store_pass))
     = [\<lparr>conversation_id = ''conv_a'', level = 3, agent_message_time = 1999,
         detected_at = 5001, attempt = 1\<rparr>]"
    unfolding 2 by (simp add: ev event_values_def UnixMilli_def)
  have f6: "notification_states (processTimeoutDetection cfg_1s env_ok ''conv_a'' 1999 5000 store_pass) ''conv_a''
     = Some ''3''"
    unfolding 6 by simp
  show ?thesis
    using due bad 1 f2 5 f6 far unrendered 7 whole 3 4 state_a
    by (simp add: cs cs0 i64 alone alone_state)
qed

text \<open>
  C10. When the hash holds for a conversation a value that does not parse as an
  integer, the detector of either phase neither stops nor skips: it sends the same
  commands and publishes the same events as when the field is absent, that is, from
  current level 0. For instance, with a wait above the base interval and at most twice
  the base interval it publishes the level-1 event (when that renders as JSON) and
  overwrites the field with \<open>1\<close>.
\<close>

theorem unparsable_state_counts_as_level_0:
  assumes "notification_states r c = Some v" and "Atoi v = None"
  shows
    "timeout_events (processTimeoutDetection cfg e c s now r)
       = timeout_events (processTimeoutDetection cfg e c s now
           (r\<lparr>notification_states := (notification_states r)(c := None)\<rparr>))
     \<and> calls (processTimeoutDetection cfg e c s now r)
       = calls (processTimeoutDetection cfg e c s now
           (r\<lparr>notification_states := (notification_states r)(c := None)\<rparr>))
     \<and> notifications (fst (processConversationTimeout cfg e c s now (le, r)))
       = notifications (fst (processConversationTimeout cfg e c s now
           (le, r\<lparr>notification_states := (notification_states r)(c := None)\<rparr>)))
     \<and> calls (snd (processConversationTimeout cfg e c s now (le, r)))
       = calls (snd (processConversationTimeout cfg e c s now
           (le, r\<lparr>notification_states := (notification_states r)(c := None)\<rparr>)))
     \<and> (0 < TimeoutIntervalMS cfg \<and> 3 * TimeoutIntervalMS cfg \<le> max_int64
         \<and> TimeoutIntervalMS cfg < now - s \<and> now - s \<le> 2 * TimeoutIntervalMS cfg
         \<and> \<not> fails e (HGET c) \<and> json_Marshal e (notification_of e c 1 s) = NoError
         \<and> \<not> fails e (XADD (event_values e c 1 s))
         \<and> \<not> fails e (HSET c (Itoa 1)) \<longrightarrow>
        timeout_events (processTimeoutDetection cfg e c s now r)
          = timeout_events r @ [event_values e c 1 s]
        \<and> notification_states (processTimeoutDetection cfg e c s now r) c = Some (Itoa 1)
        \<and> notifications (fst (processConversationTimeout cfg e c s now (le, r)))
          = notifications le @ [notification_of e c 1 s]
        \<and> notification_states (snd (processConversationTimeout cfg e c s now (le, r))) c
          = Some (Itoa 1))"
proof -
  have cur: "currentLevel_of (notification_states r c) = 0"
    using assms by (simp add: currentLevel_of_unparsable)
  have cur0: "currentLevel_of None = 0"
    by (simp add: currentLevel_of_def)
  have 1: "timeout_events (processTimeoutDetection cfg e c s now r)
       = timeout_events (processTimeoutDetection cfg e c s now
           (r\<lparr>notification_states := (notification_states r)(c := None)\<rparr>))"
    by (simp add: pTD_events published_def cur cur0)
  have 2: "calls (processTimeoutDetection cfg e c s now r)
       = calls (processTimeoutDetection cfg e c s now
           (r\<lparr>notification_states := (notification_states r)(c := None)\<rparr>))"
    by (simp add: pTD_calls cur cur0)
  have 3: "notifications (fst (processConversationTimeout cfg e c s now (le, r)))
       = notifications (fst (processConversationTimeout cfg e c s now
           (le, r\<lparr>notification_states := (notification_states r)(c := None)\<rparr>)))"
    by (simp add: pCT_notifications notified_def cur cur0)
  have 4: "calls (snd (processConversationTimeout cfg e c s now (le, r)))
       = calls (snd (processConversationTimeout cfg e c s now
           (le, r\<lparr>notification_states := (notification_states r)(c := None)\<rparr>)))"
    by (simp add: pCT_calls cur cur0)
  have 5: "timeout_events (processTimeoutDetection cfg e c s now r)
          = timeout_events r @ [event_values e c 1 s]
        \<and> notification_states (processTimeoutDetection cfg e c s now r) c = Some (Itoa 1)
        \<and> notifications (fst (processConversationTimeout cfg e c s now (le, r)))
          = notifications le @ [notification_of e c 1 s]
        \<and> notification_states (snd (processConversationTimeout cfg e c s now (le, r))) c
          = Some (Itoa 1)"
    if h: "0 < TimeoutIntervalMS cfg \<and> 3 * TimeoutIntervalMS cfg \<le> max_int64
         \<and> TimeoutIntervalMS cfg < now - s \<and> now - s \<le> 2 * TimeoutIntervalMS cfg
         \<and> \<not> fails e (HGET c) \<and> json_Marshal e (notification_of e c 1 s) = NoError
         \<and> \<not> fails e (XADD (event_values e c 1 s))
         \<and> \<not> fails e (HSET c (Itoa 1))"
  proof -
    have "min_int64 \<le> now - s" "now - s \<le> max_int64"
      using h by (auto simp: min_int64_def max_int64_def)
    then have w: "wrap64 (now - s) = now - s" by (rule wrap64_id)
    have "min_int64 \<le> 3 * TimeoutIntervalMS cfg"
      using h by (simp add: min_int64_def)
    then have lvl: "newLevel_of (TimeoutIntervalMS cfg) (now - s) 0 = Some 1"
      using h by (simp add: newLevel_of_nowrap)
    show ?thesis
      using h by (simp add: pTD_eq pCT_eq w cur lvl HSet_def issue_def)
  qed
  from 1 2 3 4 5 show ?thesis by blast
qed

theorem unparsable_state_counts_as_level_0_witness:
  "notification_states store_garbled ''conv_a'' = Some ''two'' \<and> Atoi ''two'' = None
   \<and> json_Marshal env_ok (notification_of env_ok ''conv_a'' 1 3999) = NoError
   \<and> timeout_events (processTimeoutDetection cfg_1s env_ok ''conv_a'' 3999 5000 store_garbled)
     = [\<lparr>conversation_id = ''conv_a'', level = 1, agent_message_time = 3999,
         detected_at = 5001, attempt = 1\<rparr>]
   \<and> notification_states (processTimeoutDetection cfg_1s env_ok ''conv_a'' 3999 5000 store_garbled)
        ''conv_a'' = Some ''1''
   \<and> map Level (notifications (fst (processConversationTimeout cfg_1s env_ok ''conv_a'' 3999 5000
                                       (le_leader, store_garbled)))) = [1]
   \<and> timeout_events (processTimeoutDetection cfg_1s env_ok ''conv_a'' 3999 5000 store_garbled)
     = timeout_events (processTimeoutDetection cfg_1s env_ok ''conv_a'' 3999 5000
         (store_garbled\<lparr>notification_states := (notification_states store_garbled)(''conv_a'' := None)\<rparr>))"
proof -
  have h1: "notification_states store_garbled ''conv_a'' = Some ''two''" and h2: "Atoi ''two'' = None"
    by (simp_all add: store_garbled_def)
  have js: "json_Marshal env_ok (notification_of env_ok ''conv_a'' 1 3999) = NoError"
    by simp
  have hyp: "0 < TimeoutIntervalMS cfg_1s \<and> 3 * TimeoutIntervalMS cfg_1s \<le> max_int64
         \<and> TimeoutIntervalMS cfg_1s < 5000 - 3999 \<and> 5000 - 3999 \<le> 2 * TimeoutIntervalMS cfg_1s
         \<and> \<not> fails env_ok (HGET ''conv_a'')
         \<and> json_Marshal env_ok (notification_of env_ok ''conv_a'' 1 3999) = NoError
         \<and> \<not> fails env_ok (XADD (event_values env_ok ''conv_a'' 1 3999))
         \<and> \<not> fails env_ok (HSET ''conv_a'' (Itoa 1))"
    by (simp add: max_int64_def)
  have ev: "timeout_events store_garbled = []" and nt: "notifications le_leader = []"
    by (simp_all add: store_garbled_def le_leader_def)
  from unparsable_state_counts_as_level_0 [OF h1 h2, of cfg_1s env_ok 3999 5000 le_leader] hyp
  have "timeout_events (processTimeoutDetection cfg_1s env_ok ''conv_a'' 3999 5000 store_garbled)
          = timeout_events store_garbled @ [event_values env_ok ''conv_a'' 1 3999]"
    and "notification_states (processTimeoutDetection cfg_1s env_ok ''conv_a'' 3999 5000 store_garbled) ''conv_a''
          = Some (Itoa 1)"
    and "notifications (fst (processConversationTimeout cfg_1s env_ok ''conv_a'' 3999 5000 (le_leader, store_garbled)))
          = notifications le_leader @ [notification_of env_ok ''conv_a'' 1 3999]"
    and "timeout_events (processTimeoutDetection cfg_1s env_ok ''conv_a'' 3999 5000 store_garbled)
     = timeout_events (processTimeoutDetection cfg_1s env_ok ''conv_a'' 3999 5000
         (store_garbled\<lparr>notification_states := (notification_states store_garbled)(''conv_a'' := None)\<rparr>))"
    by blast+
  then show ?thesis
    using h1 h2 js by (simp add: ev nt event_values_def notification_of_def UnixMilli_def)
qed

section \<open>Properties of the leader election\<close>

text \<open>
  C4. The specification lets a replica whose conditional set did not take effect read
  the leader key, stay leader and renew when the key holds its own pod id, and mark
  itself follower otherwise. The code does not get that far. Whenever the leader key is
  present, \<^verbatim>\<open>SetArgs\<close> returns an error (\<^verbatim>\<open>redis.Nil\<close> when the command was
  transmitted), and \<^verbatim>\<open>tryBecomeLeader\<close> returns at its first check: the flag
  \<^verbatim>\<open>isLeader\<close>, the counter and the lease are as before, and the only command sent
  is the \<^verbatim>\<open>SET\<close>. In no case does a tick read the key: it sends the \<^verbatim>\<open>SET\<close>,
  and the renewal script after it exactly when the \<^verbatim>\<open>SET\<close> created the key.
\<close>

theorem tryBecomeLeader_returns_when_key_present:
  "(timeout_leader r \<noteq> None \<longrightarrow>
      tryBecomeLeader cfg e le r
        = (le, r\<lparr>calls := calls r @ [SET_NX (PodID cfg) (LeaderElectionTTLDuration cfg)]\<rparr>))
   \<and> calls (snd (tryBecomeLeader cfg e le r))
       = calls r @ SET_NX (PodID cfg) (LeaderElectionTTLDuration cfg)
           # (if snd (fst (SetArgs e (PodID cfg) (LeaderElectionTTLDuration cfg) r)) = NoError
              then [EVAL_RENEW (PodID cfg) (LeaderElectionTTL cfg)] else [])"
proof (intro conjI impI)
  assume "timeout_leader r \<noteq> None"
  then obtain l where "timeout_leader r = Some l" by auto
  from SetArgs_key_present [OF this, of e "PodID cfg" "LeaderElectionTTLDuration cfg"]
  show "tryBecomeLeader cfg e le r
        = (le, r\<lparr>calls := calls r @ [SET_NX (PodID cfg) (LeaderElectionTTLDuration cfg)]\<rparr>)"
    by (simp add: tryBecomeLeader_def split_def Let_def issue_def)
next
  let ?set = "SetArgs e (PodID cfg) (LeaderElectionTTLDuration cfg) r"
  have sent: "calls (snd ?set) = calls r @ [SET_NX (PodID cfg) (LeaderElectionTTLDuration cfg)]"
    by (simp add: SetArgs_def issue_def split: option.splits)
  have val: "snd (fst ?set) = NoError \<Longrightarrow> fst (fst ?set) = ''OK''"
    by (simp add: SetArgs_def split: option.splits if_splits)
  show "calls (snd (tryBecomeLeader cfg e le r))
       = calls r @ SET_NX (PodID cfg) (LeaderElectionTTLDuration cfg)
           # (if snd (fst ?set) = NoError
              then [EVAL_RENEW (PodID cfg) (LeaderElectionTTL cfg)] else [])"
  proof (cases "snd (fst ?set) = NoError")
    case True
    with val have "fst (fst ?set) = ''OK''" by simp
    with True show ?thesis
      by (simp add: tryBecomeLeader_def split_def Let_def renewLeadership_calls sent)
  next
    case False
    then show ?thesis
      by (simp add: tryBecomeLeader_def split_def Let_def sent)
  qed
qed

theorem tryBecomeLeader_returns_when_key_present_witness:
  "isLeader le_leader
   \<and> timeout_leader store_leased_elsewhere = Some \<lparr>holder = ''pod-b'', ttl = Some 9000\<rparr>
   \<and> PodID cfg_1s = ''pod-a''
   \<and> tryBecomeLeader cfg_1s env_ok le_leader store_leased_elsewhere
     = (le_leader, store_leased_elsewhere\<lparr>calls := [SET_NX ''pod-a'' 10000000000]\<rparr>)
   \<and> timeout_leader store_leased = Some \<lparr>holder = ''pod-a'', ttl = Some 3000\<rparr>
   \<and> tryBecomeLeader cfg_1s env_ok le_leader store_leased
     = (le_leader, store_leased\<lparr>calls := [SET_NX ''pod-a'' 10000000000]\<rparr>)
   \<and> calls (snd (tryBecomeLeader cfg_1s env_ok le_follower store_empty))
     = [SET_NX ''pod-a'' 10000000000, EVAL_RENEW ''pod-a'' 10]
   \<and> timeout_leader (snd (tryBecomeLeader cfg_1s env_ok le_follower store_empty))
     = Some \<lparr>holder = ''pod-a'', ttl = Some 10000\<rparr>
   \<and> isLeader (fst (tryBecomeLeader cfg_1s env_ok le_follower store_empty))
   \<and> TimeoutLeaderChanges (metrics (fst (tryBecomeLeader cfg_1s env_ok le_follower store_empty))) = 1"
proof -
  have held: "timeout_leader store_leased_elsewhere = Some \<lparr>holder = ''pod-b'', ttl = Some 9000\<rparr>"
    and own: "timeout_leader store_leased = Some \<lparr>holder = ''pod-a'', ttl = Some 3000\<rparr>"
    and cs: "calls store_leased_elsewhere = []" "calls store_leased = []" "calls store_empty = []"
    by (simp_all add: store_leased_elsewhere_def store_leased_def store_empty_def)
  have lead: "isLeader le_leader"
    by (simp add: le_leader_def)
  have set_ok: "snd (fst (SetArgs env_ok (PodID cfg_1s) (LeaderElectionTTLDuration cfg_1s) store_empty))
      = NoError"
    by (simp add: SetArgs_def store_empty_def expire_overflows_def set_ttl_ms_def max_int64_def)
  have run: "timeout_leader (snd (tryBecomeLeader cfg_1s env_ok le_follower store_empty))
        = Some \<lparr>holder = ''pod-a'', ttl = Some 10000\<rparr>
      \<and> isLeader (fst (tryBecomeLeader cfg_1s env_ok le_follower store_empty))
      \<and> TimeoutLeaderChanges (metrics (fst (tryBecomeLeader cfg_1s env_ok le_follower store_empty))) = 1"
    by (simp add: tryBecomeLeader_def SetArgs_def renewLeadership_def EvalRenew_def issue_def Let_def
          expire_overflows_def expire_invalid_def set_ttl_ms_def max_int64_def
          le_follower_def store_empty_def metrics_zero_def)
  from tryBecomeLeader_returns_when_key_present [of store_leased_elsewhere cfg_1s env_ok le_leader] held
  have 1: "tryBecomeLeader cfg_1s env_ok le_leader store_leased_elsewhere
     = (le_leader, store_leased_elsewhere\<lparr>calls := [SET_NX ''pod-a'' 10000000000]\<rparr>)"
    by (simp add: cs)
  from tryBecomeLeader_returns_when_key_present [of store_leased cfg_1s env_ok le_leader] own
  have 2: "tryBecomeLeader cfg_1s env_ok le_leader store_leased
     = (le_leader, store_leased\<lparr>calls := [SET_NX ''pod-a'' 10000000000]\<rparr>)"
    by (simp add: cs)
  from tryBecomeLeader_returns_when_key_present [of store_empty cfg_1s env_ok le_follower] set_ok
  have 3: "calls (snd (tryBecomeLeader cfg_1s env_ok le_follower store_empty))
     = [SET_NX ''pod-a'' 10000000000, EVAL_RENEW ''pod-a'' 10]"
    by (simp add: cs)
  show ?thesis
    using held own lead 1 2 3 run by simp
qed

section \<open>Properties of the timeout manager\<close>

text \<open>
  C5. After \<^verbatim>\<open>TrackAgentMessage\<close> succeeds for conversation \<open>c\<close> with timestamp
  \<open>t\<close> (in milliseconds, of magnitude at most \<open>2 ^ 53\<close>, so that the score, a
  double, holds it exactly), the waiting index holds \<open>c\<close> with score \<open>t\<close> and no
  other score, the notification state of \<open>c\<close> is absent, and the detector starts again
  from level 0: once the wait exceeds the interval (and not yet twice the interval) it
  publishes a level-1 event, whatever level was stored before, when that event renders
  as JSON.
\<close>

theorem TrackAgentMessage_resets:
  assumes "TrackAgentMessage e agentMsg r = (NoError, r')"
    and "\<bar>UnixMilli (AgentMessage.Timestamp agentMsg)\<bar> \<le> 2 ^ 53"
  shows "map_of (waiting_conversations r') (AgentMessage.ConversationID agentMsg) =
           Some (UnixMilli (AgentMessage.Timestamp agentMsg))
       \<and> (\<forall>s. (AgentMessage.ConversationID agentMsg, s) \<in> set (waiting_conversations r')
              \<longrightarrow> s = UnixMilli (AgentMessage.Timestamp agentMsg))
       \<and> notification_states r' (AgentMessage.ConversationID agentMsg) = None
       \<and> (\<forall>cfg e' now.
             0 < TimeoutIntervalMS cfg \<and> 3 * TimeoutIntervalMS cfg \<le> max_int64
             \<and> \<not> fails e' (HGET (AgentMessage.ConversationID agentMsg))
             \<and> json_Marshal e' (notification_of e' (AgentMessage.ConversationID agentMsg) 1
                                    (UnixMilli (AgentMessage.Timestamp agentMsg))) = NoError
             \<and> \<not> fails e' (XADD (event_values e' (AgentMessage.ConversationID agentMsg) 1
                                    (UnixMilli (AgentMessage.Timestamp agentMsg))))
             \<and> TimeoutIntervalMS cfg < now - UnixMilli (AgentMessage.Timestamp agentMsg)
             \<and> now - UnixMilli (AgentMessage.Timestamp agentMsg) \<le> 2 * TimeoutIntervalMS cfg
             \<longrightarrow> timeout_events (processTimeoutDetection cfg e' (AgentMessage.ConversationID agentMsg)
                                   (int64 (UnixMilli (AgentMessage.Timestamp agentMsg))) now r')
                 = timeout_events r' @ [event_values e' (AgentMessage.ConversationID agentMsg) 1
                                          (UnixMilli (AgentMessage.Timestamp agentMsg))])"
proof -
  let ?c = "AgentMessage.ConversationID agentMsg"
  let ?t = "UnixMilli (AgentMessage.Timestamp agentMsg)"
  have fl: "float64 ?t = ?t"
    using assms(2) by (rule float64_exact)
  have "min_int64 \<le> ?t" "?t \<le> max_int64"
    using assms(2) by (simp_all add: min_int64_def max_int64_def)
  then have i64: "int64 ?t = ?t" by (rule int64_id)
  note r' = TrackAgentMessage_ok [OF assms(1), unfolded fl]
  have absent: "notification_states r' ?c = None"
    by (subst r') simp
  have w: "waiting_conversations r' = filter (\<lambda>p. fst p \<noteq> ?c) (waiting_conversations r) @ [(?c, ?t)]"
    by (subst r') simp
  have 1: "map_of (waiting_conversations r') ?c = Some ?t"
    by (simp add: w filter_other_None map_add_def)
  have 2: "\<forall>s. (?c, s) \<in> set (waiting_conversations r') \<longrightarrow> s = ?t"
    by (auto simp: w)
  have 3: "timeout_events (processTimeoutDetection cfg e' ?c (int64 ?t) now r')
             = timeout_events r' @ [event_values e' ?c 1 ?t]"
    if h: "0 < TimeoutIntervalMS cfg" "3 * TimeoutIntervalMS cfg \<le> max_int64"
          "\<not> fails e' (HGET ?c)" "json_Marshal e' (notification_of e' ?c 1 ?t) = NoError"
          "\<not> fails e' (XADD (event_values e' ?c 1 ?t))"
          "TimeoutIntervalMS cfg < now - ?t" "now - ?t \<le> 2 * TimeoutIntervalMS cfg"
    for cfg e' now
  proof -
    have "min_int64 \<le> now - ?t" "now - ?t \<le> max_int64"
      using h by (auto simp: min_int64_def max_int64_def)
    then have wr: "wrap64 (now - ?t) = now - ?t" by (rule wrap64_id)
    have "min_int64 \<le> 3 * TimeoutIntervalMS cfg"
      using h(1) by (simp add: min_int64_def)
    then have "newLevel_of (TimeoutIntervalMS cfg) (now - ?t) 0 = Some 1"
      using h by (simp add: newLevel_of_nowrap)
    then show ?thesis
      unfolding i64
      using h(3,4,5) by (simp add: pTD_eq wr absent currentLevel_of_def HSet_def issue_def)
  qed
  from absent 1 2 3 show ?thesis by blast
qed

theorem TrackAgentMessage_resets_witness:
  "fst (TrackAgentMessage env_ok agent_msg store_tracked) = NoError
   \<and> \<bar>UnixMilli (AgentMessage.Timestamp agent_msg)\<bar> \<le> 2 ^ 53
   \<and> waiting_conversations (snd (TrackAgentMessage env_ok agent_msg store_tracked)) = [(''conv_123'', 7)]
   \<and> map_of (waiting_conversations (snd (TrackAgentMessage env_ok agent_msg store_tracked))) ''conv_123'' = Some 7
   \<and> notification_states (snd (TrackAgentMessage env_ok agent_msg store_tracked)) ''conv_123'' = None
   \<and> timeout_events (processTimeoutDetection cfg_1s env_ok ''conv_123'' 7 1008
         (snd (TrackAgentMessage env_ok agent_msg store_tracked)))
       = [\<lparr>conversation_id = ''conv_123'', level = 1, agent_message_time = 7,
           detected_at = 5001, attempt = 1\<rparr>]"
proof -
  have run: "TrackAgentMessage env_ok agent_msg store_tracked =
      (NoError, snd (TrackAgentMessage env_ok agent_msg store_tracked))"
    by (simp add: TrackAgentMessage_def ZAdd_def HDel_def issue_def first_error_def Let_def
          env_ok_def agent_msg_def store_tracked_def)
  have t: "UnixMilli (AgentMessage.Timestamp agent_msg) = 7"
    and c: "AgentMessage.ConversationID agent_msg = ''conv_123''"
    by (simp_all add: agent_msg_def UnixMilli_def)
  have small: "\<bar>UnixMilli (AgentMessage.Timestamp agent_msg)\<bar> \<le> 2 ^ 53"
    by (simp add: t)
  have ev: "timeout_events (snd (TrackAgentMessage env_ok agent_msg store_tracked)) = []"
    and w: "waiting_conversations (snd (TrackAgentMessage env_ok agent_msg store_tracked)) = [(''conv_123'', 7)]"
    by (simp_all add: TrackAgentMessage_def ZAdd_def HDel_def issue_def first_error_def Let_def
          env_ok_def agent_msg_def store_tracked_def UnixMilli_def float64_exact)
  have i64: "int64 7 = 7"
    by (simp add: int64_def min_int64_def max_int64_def)
  have hyp: "0 < TimeoutIntervalMS cfg_1s \<and> 3 * TimeoutIntervalMS cfg_1s \<le> max_int64
             \<and> \<not> fails env_ok (HGET ''conv_123'')
             \<and> json_Marshal env_ok (notification_of env_ok ''conv_123'' 1 7) = NoError
             \<and> \<not> fails env_ok (XADD (event_values env_ok ''conv_123'' 1 7))
             \<and> TimeoutIntervalMS cfg_1s < 1008 - 7
             \<and> 1008 - 7 \<le> 2 * TimeoutIntervalMS cfg_1s"
    by (simp add: max_int64_def)
  from TrackAgentMessage_resets [OF run small, unfolded t c i64] hyp
  have "map_of (waiting_conversations (snd (TrackAgentMessage env_ok agent_msg store_tracked))) ''conv_123'' = Some 7"
    and "notification_states (snd (TrackAgentMessage env_ok agent_msg store_tracked)) ''conv_123'' = None"
    and "timeout_events (processTimeoutDetection cfg_1s env_ok ''conv_123'' 7 1008
         (snd (TrackAgentMessage env_ok agent_msg store_tracked)))
       = timeout_events (snd (TrackAgentMessage env_ok agent_msg store_tracked)) @ [event_values env_ok ''conv_123'' 1 7]"
    by blast+
  moreover have "fst (TrackAgentMessage env_ok agent_msg store_tracked) = NoError"
    by (metis run fst_conv)
  ultimately show ?thesis
    using w small by (simp add: ev event_values_def UnixMilli_def)
qed

text \<open>
  C6. After \<^verbatim>\<open>ClearTimeout\<close> succeeds the conversation is in neither the waiting
  index nor the notification states. It succeeds whenever its two commands are
  transmitted, whether or not the conversation is tracked; on a conversation that is
  not tracked it changes nothing but the record of the commands.
\<close>

theorem ClearTimeout_clears:
  "(ClearTimeout e customerResp r = (NoError, r') \<longrightarrow>
      CustomerResponse.ConversationID customerResp \<notin> fst ` set (waiting_conversations r')
      \<and> notification_states r' (CustomerResponse.ConversationID customerResp) = None)
   \<and> (\<not> fails e (ZREM (CustomerResponse.ConversationID customerResp))
       \<and> \<not> fails e (HDEL (CustomerResponse.ConversationID customerResp)) \<longrightarrow>
      fst (ClearTimeout e customerResp r) = NoError)
   \<and> (\<not> fails e (ZREM (CustomerResponse.ConversationID customerResp))
       \<and> \<not> fails e (HDEL (CustomerResponse.ConversationID customerResp))
       \<and> CustomerResponse.ConversationID customerResp \<notin> fst ` set (waiting_conversations r)
       \<and> notification_states r (CustomerResponse.ConversationID customerResp) = None \<longrightarrow>
      ClearTimeout e customerResp r =
        (NoError, r\<lparr>calls := calls r @ [ZREM (CustomerResponse.ConversationID customerResp),
                                         HDEL (CustomerResponse.ConversationID customerResp)]\<rparr>))"
proof (intro conjI impI)
  let ?c = "CustomerResponse.ConversationID customerResp"
  assume ok: "ClearTimeout e customerResp r = (NoError, r')"
  then have nf: "\<not> fails e (ZREM ?c)" "\<not> fails e (HDEL ?c)"
    by (auto simp: ClearTimeout_eq Let_def split: if_splits)
  with ok have r': "r' = r\<lparr>waiting_conversations := filter (\<lambda>p. fst p \<noteq> ?c) (waiting_conversations r),
                         notification_states := (notification_states r)(?c := None),
                         calls := calls r @ [ZREM ?c, HDEL ?c]\<rparr>"
    by (simp add: ClearTimeout_eq Let_def)
  show "?c \<notin> fst ` set (waiting_conversations r')"
    by (subst r') auto
  show "notification_states r' ?c = None"
    by (subst r') simp
next
  assume "\<not> fails e (ZREM (CustomerResponse.ConversationID customerResp))
       \<and> \<not> fails e (HDEL (CustomerResponse.ConversationID customerResp))"
  then show "fst (ClearTimeout e customerResp r) = NoError"
    by (simp add: ClearTimeout_eq Let_def)
next
  let ?c = "CustomerResponse.ConversationID customerResp"
  assume h: "\<not> fails e (ZREM ?c) \<and> \<not> fails e (HDEL ?c)
       \<and> ?c \<notin> fst ` set (waiting_conversations r) \<and> notification_states r ?c = None"
  then have "filter (\<lambda>p. fst p \<noteq> ?c) (waiting_conversations r) = waiting_conversations r"
    by (simp add: filter_id_notin)
  moreover have "(notification_states r)(?c := None) = notification_states r"
    using h by (simp add: fun_upd_idem)
  ultimately show "ClearTimeout e customerResp r = (NoError, r\<lparr>calls := calls r @ [ZREM ?c, HDEL ?c]\<rparr>)"
    using h by (simp add: ClearTimeout_eq Let_def)
qed

theorem ClearTimeout_clears_witness:
  "ClearTimeout env_ok customer_resp store_tracked =
     (NoError, store_tracked\<lparr>waiting_conversations := [], notification_states := Map.empty,
                             calls := [ZREM ''conv_123'', HDEL ''conv_123'']\<rparr>)
   \<and> ''conv_123'' \<notin> fst ` set (waiting_conversations (snd (ClearTimeout env_ok customer_resp store_tracked)))
   \<and> notification_states (snd (ClearTimeout env_ok customer_resp store_tracked)) ''conv_123'' = None
   \<and> ClearTimeout env_ok customer_resp store_idle =
        (NoError, store_idle\<lparr>calls := [ZREM ''conv_123'', HDEL ''conv_123'']\<rparr>)
   \<and> fst (ClearTimeout env_ok customer_resp store_aged) = NoError"
proof -
  have c: "CustomerResponse.ConversationID customer_resp = ''conv_123''"
    by (simp add: customer_resp_def)
  have run: "ClearTimeout env_ok customer_resp store_tracked =
     (NoError, store_tracked\<lparr>waiting_conversations := [], notification_states := Map.empty,
                             calls := [ZREM ''conv_123'', HDEL ''conv_123'']\<rparr>)"
    by (simp add: ClearTimeout_def ZRem_def HDel_def issue_def first_error_def Let_def c
          store_tracked_def)
  have idle: "\<not> fails env_ok (ZREM ''conv_123'') \<and> \<not> fails env_ok (HDEL ''conv_123'')
       \<and> ''conv_123'' \<notin> fst ` set (waiting_conversations store_idle)
       \<and> notification_states store_idle ''conv_123'' = None"
    by (simp add: store_idle_def)
  have cs: "calls store_idle = []"
    by (simp add: store_idle_def)
  note inst = ClearTimeout_clears [of env_ok customer_resp, unfolded c]
  from inst [of store_tracked "snd (ClearTimeout env_ok customer_resp store_tracked)"] run
  have "''conv_123'' \<notin> fst ` set (waiting_conversations (snd (ClearTimeout env_ok customer_resp store_tracked)))"
    and "notification_states (snd (ClearTimeout env_ok customer_resp store_tracked)) ''conv_123'' = None"
    by simp_all
  moreover from inst [of store_idle] idle
  have "ClearTimeout env_ok customer_resp store_idle =
        (NoError, store_idle\<lparr>calls := [ZREM ''conv_123'', HDEL ''conv_123'']\<rparr>)"
    by (simp add: cs)
  moreover have "\<not> fails env_ok (ZREM ''conv_123'') \<and> \<not> fails env_ok (HDEL ''conv_123'')"
    by simp
  with inst [of store_aged "snd (ClearTimeout env_ok customer_resp store_aged)"]
  have "fst (ClearTimeout env_ok customer_resp store_aged) = NoError"
    by blast
  ultimately show ?thesis using run by simp
qed

text \<open>
  C9, as the specification states it, fails: with a cutoff of 1000 ms the entry whose
  score is exactly 1000 is removed although it is not below the cutoff, and the entry
  whose score is negative stays although it is below the cutoff.
\<close>

theorem Cleanup_strictly_below_counterexample:
  "(''at_cutoff'', 1000) \<in> set (waiting_conversations store_aged)
   \<and> \<not> (1000 < UnixMilli (time_Add 2000000000 (- 1000000000)))
   \<and> (''at_cutoff'', 1000) \<notin>
        set (waiting_conversations
              (snd (CleanupExpiredConversations env_ok 2000000000 1000000000 store_aged)))
   \<and> (''before_epoch'', - 5) \<in> set (waiting_conversations store_aged)
   \<and> - 5 < UnixMilli (time_Add 2000000000 (- 1000000000))
   \<and> (''before_epoch'', - 5) \<in>
        set (waiting_conversations
              (snd (CleanupExpiredConversations env_ok 2000000000 1000000000 store_aged)))"
  by (simp add: Cleanup_eq Let_def store_aged_def UnixMilli_def time_Add_def wrap64_def float64_exact)

text \<open>
  C9, amended. \<^verbatim>\<open>CleanupExpiredConversations\<close> removes from the waiting index
  exactly the entries whose score lies between 0 and the cutoff, both included. The
  cutoff is \<open>now - maxAge\<close> in whole milliseconds, read by the server as a double:
  it is that number itself when \<open>maxAge\<close> is an \<^verbatim>\<open>int64\<close> other than the least
  one (whose negation is itself) and the number is at most \<open>2 ^ 53\<close> in magnitude.
  The result of the call is the error alone (no count), and the notification states are
  left as they were.
\<close>

theorem Cleanup_inclusive_range:
  "(\<not> fails e (ZREMRANGEBYSCORE 0 (UnixMilli (time_Add now (wrap64 (- maxAge))))) \<longrightarrow>
      CleanupExpiredConversations e now maxAge r =
        (NoError,
         r\<lparr>waiting_conversations :=
              filter (\<lambda>p. \<not> (0 \<le> snd p
                             \<and> snd p \<le> float64 (UnixMilli (time_Add now (wrap64 (- maxAge))))))
                (waiting_conversations r),
            calls := calls r @ [ZREMRANGEBYSCORE 0 (UnixMilli (time_Add now (wrap64 (- maxAge))))]\<rparr>))
   \<and> (fails e (ZREMRANGEBYSCORE 0 (UnixMilli (time_Add now (wrap64 (- maxAge))))) \<longrightarrow>
      CleanupExpiredConversations e now maxAge r =
        (OtherError,
         r\<lparr>calls := calls r @ [ZREMRANGEBYSCORE 0 (UnixMilli (time_Add now (wrap64 (- maxAge))))]\<rparr>))
   \<and> notification_states (snd (CleanupExpiredConversations e now maxAge r)) = notification_states r
   \<and> (min_int64 < maxAge \<and> maxAge \<le> max_int64 \<and> \<bar>(now - maxAge) div 1000000\<bar> \<le> 2 ^ 53 \<longrightarrow>
      float64 (UnixMilli (time_Add now (wrap64 (- maxAge)))) = (now - maxAge) div 1000000)"
proof -
  have "float64 (UnixMilli (time_Add now (wrap64 (- maxAge)))) = (now - maxAge) div 1000000"
    if h: "min_int64 < maxAge \<and> maxAge \<le> max_int64 \<and> \<bar>(now - maxAge) div 1000000\<bar> \<le> 2 ^ 53"
  proof -
    have "wrap64 (- maxAge) = - maxAge"
      using h by (intro wrap64_id) (simp_all add: min_int64_def max_int64_def)
    then have "UnixMilli (time_Add now (wrap64 (- maxAge))) = (now - maxAge) div 1000000"
      by (simp add: UnixMilli_def time_Add_def)
    with h show ?thesis by (simp add: float64_exact)
  qed
  then show ?thesis
    by (simp add: Cleanup_eq Let_def)
qed

theorem Cleanup_inclusive_range_witness:
  "CleanupExpiredConversations env_ok 2000000000 1000000000 store_aged =
     (NoError, store_aged\<lparr>waiting_conversations := [(''before_epoch'', - 5), (''fresh'', 1500)],
                          calls := [ZREMRANGEBYSCORE 0 1000]\<rparr>)
   \<and> notification_states (snd (CleanupExpiredConversations env_ok 2000000000 1000000000 store_aged))
        ''at_cutoff'' = Some ''3''
   \<and> CleanupExpiredConversations env_down 2000000000 1000000000 store_aged =
     (OtherError, store_aged\<lparr>calls := [ZREMRANGEBYSCORE 0 1000]\<rparr>)
   \<and> float64 (UnixMilli (time_Add 2000000000 (wrap64 (- 1000000000)))) = 1000
   \<and> wrap64 (- min_int64) = min_int64
   \<and> CleanupExpiredConversations env_ok 2000000000 min_int64 store_aged =
     (NoError, store_aged\<lparr>calls := [ZREMRANGEBYSCORE 0 (- 9223372034855)]\<rparr>)"
proof -
  have cut: "UnixMilli (time_Add 2000000000 (wrap64 (- 1000000000))) = 1000"
    and far: "UnixMilli (time_Add 2000000000 (wrap64 (- min_int64))) = - 9223372034855"
    and neg: "wrap64 (- min_int64) = min_int64"
    by (simp_all add: UnixMilli_def time_Add_def wrap64_def min_int64_def)
  have fl: "float64 1000 = 1000" "float64 (- 9223372034855) = - 9223372034855"
    by (simp_all add: float64_exact)
  have nf: "\<not> fails env_ok (ZREMRANGEBYSCORE 0 1000)"
    and nf': "\<not> fails env_ok (ZREMRANGEBYSCORE 0 (- 9223372034855))"
    and f: "fails env_down (ZREMRANGEBYSCORE 0 1000)"
    by (simp_all add: env_down_def)
  have rng: "min_int64 < 1000000000 \<and> 1000000000 \<le> max_int64
      \<and> \<bar>(2000000000 - 1000000000) div 1000000\<bar> \<le> (2::int) ^ 53"
    by (simp add: min_int64_def max_int64_def)
  have cs: "calls store_aged = []"
    by (simp add: store_aged_def)
  from Cleanup_inclusive_range [of env_down 2000000000 1000000000 store_aged, unfolded cut] f
  have "CleanupExpiredConversations env_down 2000000000 1000000000 store_aged =
     (OtherError, store_aged\<lparr>calls := [ZREMRANGEBYSCORE 0 1000]\<rparr>)"
    by (simp add: cs)
  moreover
  from Cleanup_inclusive_range [of env_ok 2000000000 1000000000 store_aged, unfolded cut fl] nf
  have "CleanupExpiredConversations env_ok 2000000000 1000000000 store_aged =
     (NoError, store_aged\<lparr>waiting_conversations := [(''before_epoch'', - 5), (''fresh'', 1500)],
                          calls := [ZREMRANGEBYSCORE 0 1000]\<rparr>)
   \<and> notification_states (snd (CleanupExpiredConversations env_ok 2000000000 1000000000 store_aged))
        ''at_cutoff'' = Some ''3''"
    by (simp add: store_aged_def)
  moreover
  from Cleanup_inclusive_range [of env_ok 2000000000 1000000000 store_aged] rng
  have "float64 (UnixMilli (time_Add 2000000000 (wrap64 (- 1000000000)))) = 1000"
    by simp
  moreover
  from Cleanup_inclusive_range [of env_ok 2000000000 min_int64 store_aged, unfolded far fl] nf'
  have "CleanupExpiredConversations env_ok 2000000000 min_int64 store_aged =
     (NoError, store_aged\<lparr>calls := [ZREMRANGEBYSCORE 0 (- 9223372034855)]\<rparr>)"
    by (simp add: store_aged_def)
  ultimately show ?thesis using neg by blast
qed

section \<open>Properties of the stream consumer\<close>

text \<open>
  C8. \<^verbatim>\<open>processMessage\<close> sends \<^verbatim>\<open>XACK\<close> for the entry exactly when parsing
  fails or parsing succeeds and the sink returns no error. Parsing fails exactly on
  the messages that are not well formed; then the \<^verbatim>\<open>parse_error\<close> counter grows by
  one. When the acknowledgement is transmitted the entry is no longer pending. When the
  sink returns an error the store, and so the pending entry, is left as it was.
\<close>

theorem consumer_ack_policy:
  "calls (snd (processMessage e sink message (m, r)))
     = calls r @ (if ack_due sink message then [XACK (ID message)] else [])
   \<and> ack_due sink message
     = (isl (parseTimeoutEvent message)
        \<or> (\<exists>event. parseTimeoutEvent message = Inr event \<and> sink event = NoError))
   \<and> isl (parseTimeoutEvent message) = (\<not> well_formed message)
   \<and> (isl (parseTimeoutEvent message) \<longrightarrow>
        StreamMessagesProcessed (fst (processMessage e sink message (m, r))) ''parse_error''
          = StreamMessagesProcessed m ''parse_error'' + 1)
   \<and> (ack_due sink message \<and> \<not> fails e (XACK (ID message)) \<longrightarrow>
        ID message \<notin> set (pending (snd (processMessage e sink message (m, r)))))
   \<and> (\<not> ack_due sink message \<longrightarrow>
        snd (processMessage e sink message (m, r)) = r
        \<and> StreamMessagesProcessed (fst (processMessage e sink message (m, r))) ''notification_error''
          = StreamMessagesProcessed m ''notification_error'' + 1)"
proof (cases "parseTimeoutEvent message")
  case (Inl err)
  then show ?thesis
    by (simp add: processMessage_eq ack_due_def XAck_calls XAck_pending Inc_def
          parse_fails_iff [symmetric])
next
  case (Inr event)
  then show ?thesis
    by (simp add: processMessage_eq ack_due_def XAck_calls XAck_pending Inc_def
          parse_fails_iff [symmetric])
qed

theorem consumer_ack_policy_witness:
  "well_formed msg_good \<and> \<not> well_formed msg_poison
   \<and> calls (snd (processMessage env_ok consumer_sendNotification msg_good (metrics_zero, store_delivered)))
     = [XACK ''1-0'']
   \<and> pending (snd (processMessage env_ok consumer_sendNotification msg_good (metrics_zero, store_delivered)))
     = [''2-0'']
   \<and> calls (snd (processMessage env_ok consumer_sendNotification msg_poison (metrics_zero, store_delivered)))
     = [XACK ''2-0'']
   \<and> ''2-0'' \<notin> set (pending (snd (processMessage env_ok consumer_sendNotification msg_poison
                                      (metrics_zero, store_delivered))))
   \<and> StreamMessagesProcessed
        (fst (processMessage env_ok consumer_sendNotification msg_poison (metrics_zero, store_delivered)))
        ''parse_error'' = 1
   \<and> snd (processMessage env_ok sink_down msg_good (metrics_zero, store_delivered)) = store_delivered
   \<and> ''1-0'' \<in> set (pending (snd (processMessage env_ok sink_down msg_good (metrics_zero, store_delivered))))"
proof -
  have good: "well_formed msg_good" and poison: "\<not> well_formed msg_poison"
    by (simp_all add: well_formed_def numeric_field_def as_string_def msg_good_def msg_poison_def
          ParseInt64_def)
  have ids: "ID msg_good = ''1-0''" "ID msg_poison = ''2-0''"
    by (simp_all add: msg_good_def msg_poison_def)
  have st: "calls store_delivered = []" "pending store_delivered = [''1-0'', ''2-0'']"
    by (simp_all add: store_delivered_def)
  have m0: "StreamMessagesProcessed metrics_zero ''parse_error'' = 0"
    by (simp add: metrics_zero_def)
  have xack: "\<not> fails env_ok (XACK i)" for i
    by simp
  note a = consumer_ack_policy [of env_ok consumer_sendNotification msg_good metrics_zero store_delivered]
  note b = consumer_ack_policy [of env_ok consumer_sendNotification msg_poison metrics_zero store_delivered]
  note c = consumer_ack_policy [of env_ok sink_down msg_good metrics_zero store_delivered]
  have due_a: "ack_due consumer_sendNotification msg_good"
    using a good
    by (cases "parseTimeoutEvent msg_good") (auto simp: consumer_sendNotification_def)
  have due_b: "ack_due consumer_sendNotification msg_poison"
    using b poison by simp
  have due_c: "\<not> ack_due sink_down msg_good"
    using c good by (simp add: sink_down_def)
  have pa: "pending (snd (processMessage env_ok consumer_sendNotification msg_good (metrics_zero, store_delivered)))
     = [''2-0'']"
    by (simp add: processMessage_eq parseTimeoutEvent_def as_string_def msg_good_def ParseInt64_def
          consumer_sendNotification_def XAck_pending store_delivered_def)
  from a due_a have 1: "calls (snd (processMessage env_ok consumer_sendNotification msg_good (metrics_zero, store_delivered)))
     = [XACK ''1-0'']"
    by (simp add: ids st)
  from b due_b poison xack
  have 2: "calls (snd (processMessage env_ok consumer_sendNotification msg_poison (metrics_zero, store_delivered)))
     = [XACK ''2-0'']"
    and 3: "''2-0'' \<notin> set (pending (snd (processMessage env_ok consumer_sendNotification msg_poison
                                      (metrics_zero, store_delivered))))"
    and 4: "StreamMessagesProcessed
        (fst (processMessage env_ok consumer_sendNotification msg_poison (metrics_zero, store_delivered)))
        ''parse_error'' = 1"
    by (simp_all add: ids st m0)
  from c due_c
  have 5: "snd (processMessage env_ok sink_down msg_good (metrics_zero, store_delivered)) = store_delivered"
    by simp
  show ?thesis
    using good poison 1 pa 2 3 4 5 by (simp add: st)
qed

end
